theory Spec2Isabelle
  imports Main
begin

section \<open>Tokens and the token cursor\<close>

text \<open>
  Modelled from the spec: the tokenizer class (\<open>PIE.Tokenizer\<close>) is not among the sources;
  only its callers are. A token carries a type tag and a raw value string. The cursor is an
  index into the materialised token sequence:
  \<^item> \<open>next()\<close> returns the token under the index, or the end-of-stream sentinel, and
    advances the index in both cases, so that a following \<open>prev()\<close> undoes it;
  \<^item> \<open>prev()\<close> pushes the most recent result of \<open>next()\<close> back and returns the token before
    it (the gradient sub-parser "peeks one token back" through this result);
  \<^item> \<open>until(func, false)\<close> consumes tokens up to and including the first one on which
    \<open>func\<close> holds, or up to the end of the stream, and returns the consumed run; the
    callers drop the terminator with \<open>slice(0, -1)\<close> and push it back with \<open>prev()\<close>.
  The sentinel is JavaScript's \<open>null\<close> (the loops test \<open>while( token = tokenizer.next() )\<close>);
  it is \<open>None\<close> here, and reading a property of it raises \<open>TypeError\<close>.
\<close>

datatype token_type =
  ANGLE | CHARACTER | COLOR | FUNCTION | IDENT | LENGTH | NUMBER | OPERATOR | PERCENT | URL

record token =
  tokType :: token_type
  tokVal :: string

record tokenizer =
  tokens :: "token list"
  tokenIndex :: nat

definition tokenizer_next :: "tokenizer \<Rightarrow> token option \<times> tokenizer" where
  "tokenizer_next tz =
     (if tokenIndex tz < length (tokens tz) then Some (tokens tz ! tokenIndex tz) else None,
      tz\<lparr>tokenIndex := tokenIndex tz + 1\<rparr>)"

text \<open>\<open>prev()\<close> is only called after a \<open>next()\<close>, so the index is positive there.\<close>

definition tokenizer_prev :: "tokenizer \<Rightarrow> token option \<times> tokenizer" where
  "tokenizer_prev tz =
     (if 2 \<le> tokenIndex tz \<and> tokenIndex tz - 2 < length (tokens tz)
      then Some (tokens tz ! (tokenIndex tz - 2)) else None,
      tz\<lparr>tokenIndex := tokenIndex tz - 1\<rparr>)"

function tokenizer_until :: "(token \<Rightarrow> bool) \<Rightarrow> tokenizer \<Rightarrow> token list \<times> tokenizer" where
  "tokenizer_until func tz =
     (case tokenizer_next tz of
        (None, tz1) \<Rightarrow> ([], tz1)
      | (Some t, tz1) \<Rightarrow>
          if func t then ([t], tz1)
          else (case tokenizer_until func tz1 of (list, tz2) \<Rightarrow> (t # list, tz2)))"
  by pat_completeness auto
termination
  by (relation "measure (\<lambda>(func, tz). length (tokens tz) - tokenIndex tz)")
     (auto simp: tokenizer_next_def split: if_splits)

declare tokenizer_until.simps [simp del]

section \<open>Values and the parse result\<close>

text \<open>
  Modelled from the spec: the value constructors \<open>PIE.Color\<close>, \<open>PIE.Length\<close>, \<open>PIE.Angle\<close> and
  \<open>PIE.BgPosition\<close> are not among the sources. Each wraps the raw text (or token run) it is
  given; the parser never looks inside, it only tests the resulting objects for presence.
  A constructor that rejects the text of a token is outside this model.
\<close>

datatype pie_color = Color string
datatype pie_length = Length string
datatype pie_angle = Angle string
datatype bg_position = BgPosition "token list"

text \<open>The result of \<open>sizeToken\<close>: a length, or the string \<open>'auto'\<close>.\<close>

datatype size_side = Len pie_length | Auto

text \<open>
  \<open>image.size\<close> is an identifier's text, or an object \<open>{ w, h }\<close>. The height is
  \<open>sizeToken(next) || (prev() && w)\<close>; it is undefined when \<open>prev()\<close> returns nothing.
\<close>

datatype bg_size = SizeIdent string | SizeWH size_side "size_side option"

text \<open>The stop accumulator starts as the empty object \<open>{}\<close>.\<close>

record stop =
  stopColor :: "pie_color option"
  offset :: "pie_length option"

definition empty_stop :: stop where
  "empty_stop = \<lparr>stopColor = None, offset = None\<rparr>"

text \<open>
  \<open>image\<close> and \<open>gradient\<close> are plain objects; the record lists every property the parser
  sets on either. An absent property is \<open>None\<close>; an absent \<open>stops\<close> array is \<open>[]\<close> (the
  parser reads \<open>stops\<close> only on \<open>gradient\<close>, where it is always present).
\<close>

record layer =
  type :: "string option"
  url :: "string option"
  repeat :: "string option"
  position :: "bg_position option"
  attachment :: "string option"
  origin :: "string option"
  clip :: "string option"
  size_field :: "bg_size option"
  gradientStart :: "bg_position option"
  angle :: "pie_angle option"
  stops :: "stop list"

definition empty_layer :: layer where
  "empty_layer = \<lparr>type = None, url = None, repeat = None, position = None,
     attachment = None, origin = None, clip = None, size_field = None,
     gradientStart = None, angle = None, stops = []\<rparr>"

record props =
  color :: "pie_color option"
  images :: "layer list"

datatype error = TypeError

section \<open>Identifier tables\<close>

definition attachIdents :: "string list" where
  "attachIdents = [''scroll'', ''fixed'', ''local'']"

definition repeatIdents :: "string list" where
  "repeatIdents = [''repeat-x'', ''repeat-y'', ''repeat'', ''no-repeat'']"

definition originIdents :: "string list" where
  "originIdents = [''padding-box'', ''border-box'', ''content-box'']"

definition clipIdents :: "string list" where
  "clipIdents = [''padding-box'', ''border-box'']"

definition positionIdents :: "string list" where
  "positionIdents = [''top'', ''right'', ''bottom'', ''left'', ''center'']"

definition sizeIdents :: "string list" where
  "sizeIdents = [''contain'', ''cover'']"

text \<open>
  The tables are object literals and membership is tested with JavaScript's \<open>in\<close>, which also
  finds the properties every object inherits from \<open>Object.prototype\<close>. The list below is that
  of ECMAScript 3, the edition of the JScript engines the library is written for; a later
  engine adds a few names of its own (\<open>__proto__\<close> and the like).
\<close>

definition object_prototype_keys :: "string list" where
  "object_prototype_keys = [''constructor'', ''toString'', ''toLocaleString'', ''valueOf'',
     ''hasOwnProperty'', ''isPrototypeOf'', ''propertyIsEnumerable'']"

definition js_in :: "string \<Rightarrow> string list \<Rightarrow> bool" where
  "js_in key own_keys = (key \<in> set own_keys \<or> key \<in> set object_prototype_keys)"

section \<open>Token classifiers\<close>

definition isLengthOrPercent :: "token \<Rightarrow> bool" where
  "isLengthOrPercent token =
     (tokType token = LENGTH \<or> tokType token = PERCENT \<or>
      (tokType token = NUMBER \<and> tokVal token = ''0''))"

definition isBgPosToken :: "token \<Rightarrow> bool" where
  "isBgPosToken token =
     (isLengthOrPercent token \<or> (tokType token = IDENT \<and> js_in (tokVal token) positionIdents))"

definition sizeToken :: "token \<Rightarrow> size_side option" where
  "sizeToken token =
     (if isLengthOrPercent token then Some (Len (Length (tokVal token)))
      else if tokVal token = ''auto'' then Some Auto
      else None)"

section \<open>The gradient sub-parser\<close>

text \<open>
  Modelled from the spec: \<open>PIE.Util.merge\<close> is not among the sources. It copies the properties
  present on \<open>gradient\<close> (always \<open>stops\<close> and \<open>type\<close>; \<open>angle\<close> and \<open>gradientStart\<close> when recorded)
  onto \<open>image\<close>.
\<close>

definition merge :: "layer \<Rightarrow> layer \<Rightarrow> layer" where
  "merge img gradient =
     img\<lparr>type := type gradient,
           stops := stops gradient,
           angle := (case angle gradient of None \<Rightarrow> angle img | Some a \<Rightarrow> Some a),
           gradientStart :=
             (case gradientStart gradient of None \<Rightarrow> gradientStart img | Some p \<Rightarrow> Some p)\<rparr>"

text \<open>
  One pass through the body of the inner loop ends in an exception, in a \<open>break\<close> (with the
  image and the cursor as they are then), or at the loop head again.
\<close>

datatype gradient_outcome =
  GThrow error
| GBreak layer tokenizer
| GContinue layer stop tokenizer

text \<open>Lines 123 to 132: start a stop with the colour and look one token ahead for its offset.\<close>

definition color_stop :: "string \<Rightarrow> tokenizer \<Rightarrow> layer \<Rightarrow> gradient_outcome" where
  "color_stop tokVal' tz gradient =
     (let stop = \<lparr>stopColor = Some (Color tokVal'), offset = None\<rparr> in
      case tokenizer_next tz of
        (None, tz1) \<Rightarrow> GThrow TypeError
      | (Some token, tz1) \<Rightarrow>
          if isLengthOrPercent token
          then GContinue gradient (stop\<lparr>offset := Some (Length (tokVal token))\<rparr>) tz1
          else GContinue gradient stop (snd (tokenizer_prev tz1)))"

definition gradient_body ::
  "token \<Rightarrow> tokenizer \<Rightarrow> layer \<Rightarrow> stop \<Rightarrow> layer \<Rightarrow> gradient_outcome" where
  "gradient_body token tz gradient stop img =
     (if tokType token = CHARACTER \<and> tokVal token = '')'' then
        (let gradient1 = (if stopColor stop \<noteq> None
                          then gradient\<lparr>stops := stops gradient @ [stop]\<rparr> else gradient)
         in GBreak (if length (stops gradient1) > 1 then merge img gradient1 else img) tz)
      else if tokType token = COLOR then
        (if angle gradient \<noteq> None \<or> gradientStart gradient \<noteq> None then
           (case tokenizer_prev tz of
              (None, tz1) \<Rightarrow> GThrow TypeError
            | (Some previous, tz1) \<Rightarrow>
                if tokType previous \<noteq> OPERATOR then GBreak img tz1
                else color_stop (tokVal token) (snd (tokenizer_next tz1)) gradient)
         else color_stop (tokVal token) tz gradient)
      else if tokType token = ANGLE \<and> angle gradient = None \<and> stopColor stop = None
              \<and> stops gradient = [] then
        GContinue (gradient\<lparr>angle := Some (Angle (tokVal token))\<rparr>) stop tz
      else if isBgPosToken token \<and> gradientStart gradient = None \<and> stopColor stop = None
              \<and> stops gradient = [] then
        (case tokenizer_until (\<lambda>t. \<not> isBgPosToken t) (snd (tokenizer_prev tz)) of
           (list, tz1) \<Rightarrow>
             GContinue (gradient\<lparr>gradientStart := Some (BgPosition (butlast list))\<rparr>) stop
               (snd (tokenizer_prev tz1)))
      else if tokType token = OPERATOR \<and> tokVal token = '','' then
        (if stopColor stop \<noteq> None
         then GContinue (gradient\<lparr>stops := stops gradient @ [stop]\<rparr>) empty_stop tz
         else GContinue gradient stop tz)
      else GBreak img tz)"

text \<open>
  Cursor arithmetic for the termination proofs: every operation keeps the token sequence,
  \<open>until\<close> consumes at least one result of \<open>next()\<close>, and at least two when it starts on a
  token that does not stop it.
\<close>

lemma tokenizer_next_tokens [simp]: "tokens (snd (tokenizer_next tz)) = tokens tz"
  by (simp add: tokenizer_next_def)

lemma tokenizer_next_index [simp]: "tokenIndex (snd (tokenizer_next tz)) = tokenIndex tz + 1"
  by (simp add: tokenizer_next_def)

lemma tokenizer_prev_tokens [simp]: "tokens (snd (tokenizer_prev tz)) = tokens tz"
  by (simp add: tokenizer_prev_def)

lemma tokenizer_prev_index [simp]: "tokenIndex (snd (tokenizer_prev tz)) = tokenIndex tz - 1"
  by (simp add: tokenizer_prev_def)

lemma tokenizer_next_Some:
  "tokenizer_next tz = (Some t, tz1) \<Longrightarrow>
     tokenIndex tz < length (tokens tz) \<and> t = tokens tz ! tokenIndex tz \<and>
     tz1 = tz\<lparr>tokenIndex := tokenIndex tz + 1\<rparr>"
  by (auto simp: tokenizer_next_def split: if_splits)

lemma tokenizer_until_unfold:
  "tokenizer_until func tz =
     (if tokenIndex tz < length (tokens tz) then
        (if func (tokens tz ! tokenIndex tz)
         then ([tokens tz ! tokenIndex tz], tz\<lparr>tokenIndex := tokenIndex tz + 1\<rparr>)
         else (case tokenizer_until func (tz\<lparr>tokenIndex := tokenIndex tz + 1\<rparr>) of
                 (list, tz2) \<Rightarrow> (tokens tz ! tokenIndex tz # list, tz2)))
      else ([], tz\<lparr>tokenIndex := tokenIndex tz + 1\<rparr>))"
  by (subst tokenizer_until.simps) (simp add: tokenizer_next_def)

lemma tokenizer_until_cursor:
  "tokens (snd (tokenizer_until func tz)) = tokens tz \<and>
   tokenIndex tz < tokenIndex (snd (tokenizer_until func tz))"
proof (induction "length (tokens tz) - tokenIndex tz" arbitrary: tz rule: less_induct)
  case less
  let ?tz1 = "tz\<lparr>tokenIndex := tokenIndex tz + 1\<rparr>"
  show ?case
  proof (cases "tokenIndex tz < length (tokens tz) \<and> \<not> func (tokens tz ! tokenIndex tz)")
    case True
    then have "length (tokens ?tz1) - tokenIndex ?tz1 < length (tokens tz) - tokenIndex tz"
      by (simp add: Suc_diff_Suc diff_less_mono2)
    from less [OF this] True show ?thesis
      by (subst (1 2) tokenizer_until_unfold) (simp add: case_prod_beta)
  next
    case False
    then show ?thesis
      by (subst (1 2) tokenizer_until_unfold) auto
  qed
qed

lemma tokenizer_until_tokens [simp]: "tokens (snd (tokenizer_until func tz)) = tokens tz"
  using tokenizer_until_cursor by blast

lemma tokenizer_until_index: "tokenIndex tz < tokenIndex (snd (tokenizer_until func tz))"
  using tokenizer_until_cursor by blast

lemma tokenizer_until_index2:
  assumes "tokenIndex tz < length (tokens tz)" and "\<not> func (tokens tz ! tokenIndex tz)"
  shows "tokenIndex tz + 2 \<le> tokenIndex (snd (tokenizer_until func tz))"
proof -
  let ?tz1 = "tz\<lparr>tokenIndex := tokenIndex tz + 1\<rparr>"
  have "tokenizer_until func tz =
          (case tokenizer_until func ?tz1 of
             (list, tz2) \<Rightarrow> (tokens tz ! tokenIndex tz # list, tz2))"
    using assms by (subst tokenizer_until_unfold) simp
  then have "snd (tokenizer_until func tz) = snd (tokenizer_until func ?tz1)"
    by (simp add: case_prod_beta)
  with tokenizer_until_index [of ?tz1 func] show ?thesis by simp
qed

lemma color_stop_advances:
  assumes "color_stop v tz g = GContinue g1 s1 tz2"
  shows "tokens tz2 = tokens tz \<and> tokenIndex tz \<le> tokenIndex tz2"
  using assms
  by (auto simp: color_stop_def tokenizer_next_def tokenizer_prev_def Let_def
           split: if_splits)

lemma gradient_body_advances:
  assumes "tokenizer_next tz = (Some token, tz1)"
    and "gradient_body token tz1 g s img = GContinue g1 s1 tz2"
  shows "tokens tz2 = tokens tz \<and> tokenIndex tz < tokenIndex tz2"
proof -
  from assms(1) have lt: "tokenIndex tz < length (tokens tz)"
    and tok: "token = tokens tz ! tokenIndex tz"
    and tz1: "tz1 = tz\<lparr>tokenIndex := tokenIndex tz + 1\<rparr>"
    using tokenizer_next_Some by blast+
  have pb: "snd (tokenizer_prev tz1) = tz"
    by (simp add: tz1 tokenizer_prev_def)
  have c1: "tokens tz1 = tokens tz" "tokenIndex tz1 = tokenIndex tz + 1"
    by (simp_all add: tz1)
  consider (color) "tokType token = COLOR"
    | (pos) "tokType token \<noteq> COLOR" "isBgPosToken token"
    | (other) "tokType token \<noteq> COLOR" "\<not> isBgPosToken token"
    by blast
  then show ?thesis
  proof cases
    case color
    with assms(2) obtain tz' where cs: "color_stop (tokVal token) tz' g = GContinue g1 s1 tz2"
      and tz': "tz' = tz1 \<or> tz' = snd (tokenizer_next (snd (tokenizer_prev tz1)))"
      by (auto simp: gradient_body_def split: if_splits prod.splits option.splits)
    from tz' pb c1 have "tokens tz' = tokens tz \<and> tokenIndex tz' = tokenIndex tz + 1"
      by auto
    with color_stop_advances [OF cs] show ?thesis by simp
  next
    case pos
    have two: "tokenIndex tz + 2 \<le>
        tokenIndex (snd (tokenizer_until (\<lambda>t. \<not> isBgPosToken t) tz))"
      using lt pos(2) tok by (intro tokenizer_until_index2) simp_all
    from pos assms(2) two c1 show ?thesis
      by (auto simp: gradient_body_def pb case_prod_beta split: if_splits)
  next
    case other
    with assms(2) c1 show ?thesis
      by (auto simp: gradient_body_def split: if_splits)
  qed
qed

function gradient_loop ::
  "tokenizer \<Rightarrow> layer \<Rightarrow> stop \<Rightarrow> layer \<Rightarrow> error + layer \<times> tokenizer" where
  "gradient_loop tz gradient stop img =
     (case tokenizer_next tz of
        (None, tz1) \<Rightarrow> Inr (img, tz1)
      | (Some token, tz1) \<Rightarrow>
          (case gradient_body token tz1 gradient stop img of
             GThrow e \<Rightarrow> Inl e
           | GBreak img1 tz2 \<Rightarrow> Inr (img1, tz2)
           | GContinue gradient1 stop1 tz2 \<Rightarrow> gradient_loop tz2 gradient1 stop1 img))"
  by pat_completeness auto
termination
proof (relation "measure (\<lambda>(tz, gradient, stop, img). length (tokens tz) - tokenIndex tz)")
  show "wf (measure (\<lambda>(tz, gradient, stop, img). length (tokens tz) - tokenIndex tz))"
    by simp
next
  fix tz gradient stop img x1 tz1 token gradient1 stop1 tz2
  assume "(x1, tz1) = tokenizer_next tz" and "x1 = Some token"
    and "gradient_body token tz1 gradient stop img = GContinue gradient1 stop1 tz2"
  then have "tokenizer_next tz = (Some token, tz1)"
    and "gradient_body token tz1 gradient stop img = GContinue gradient1 stop1 tz2"
    by simp_all
  from gradient_body_advances [OF this] tokenizer_next_Some [OF this(1)]
  show "((tz2, gradient1, stop1, img), (tz, gradient, stop, img))
          \<in> measure (\<lambda>(tz, gradient, stop, img). length (tokens tz) - tokenIndex tz)"
    by (simp add: diff_less_mono2)
qed

declare gradient_loop.simps [simp del]

lemma gradient_body_break:
  assumes "tokenizer_next tz = (Some token, tz1)"
    and "gradient_body token tz1 g s img = GBreak img1 tz2"
  shows "tokens tz2 = tokens tz \<and> tokenIndex tz \<le> tokenIndex tz2"
proof -
  from tokenizer_next_Some [OF assms(1)]
  have c1: "tokens tz1 = tokens tz" "tokenIndex tz1 = tokenIndex tz + 1"
    by simp_all
  from assms(2) have "tz2 = tz1 \<or> tz2 = snd (tokenizer_prev tz1)"
    by (auto simp: gradient_body_def color_stop_def Let_def case_prod_beta
             split: if_splits option.splits prod.splits)
  with c1 show ?thesis by auto
qed

lemma gradient_loop_advances:
  "gradient_loop tz gradient stop img = Inr (img1, tz2) \<Longrightarrow>
     tokens tz2 = tokens tz \<and> tokenIndex tz \<le> tokenIndex tz2"
proof (induction tz gradient stop img rule: gradient_loop.induct)
  case (1 tz gradient stop img)
  obtain r tz1 where nx: "tokenizer_next tz = (r, tz1)"
    by (cases "tokenizer_next tz")
  show ?case
  proof (cases r)
    case None
    with nx "1.prems" have "tz2 = snd (tokenizer_next tz)"
      by (simp add: gradient_loop.simps [of tz])
    then show ?thesis by simp
  next
    case (Some token)
    with nx have nx': "tokenizer_next tz = (Some token, tz1)" by simp
    show ?thesis
    proof (cases "gradient_body token tz1 gradient stop img")
      case (GThrow e)
      with nx' "1.prems" show ?thesis
        by (simp add: gradient_loop.simps [of tz])
    next
      case (GBreak img' tz')
      with nx' "1.prems" have "tz' = tz2"
        by (simp add: gradient_loop.simps [of tz])
      with gradient_body_break [OF nx' GBreak] show ?thesis by simp
    next
      case (GContinue g' s' tz')
      with nx' "1.prems" have rec: "gradient_loop tz' g' s' img = Inr (img1, tz2)"
        by (simp add: gradient_loop.simps [of tz])
      from "1.IH" [OF nx' [symmetric] refl GContinue rec]
        gradient_body_advances [OF nx' GContinue]
      show ?thesis by simp
    qed
  qed
qed

section \<open>The layer parser\<close>

datatype parse_outcome =
  PThrow error
| PReturnNull
| PContinue props layer tokenizer

text \<open>The gradient object and the stop accumulator at the start of the sub-parser (lines 95, 96).\<close>

definition new_gradient :: layer where
  "new_gradient = empty_layer\<lparr>stops := [], type := Some ''linear-gradient''\<rparr>"

text \<open>Lines 192 to 203: the operand of the \<open>/\<close> operator.\<close>

definition background_size :: "tokenizer \<Rightarrow> props \<Rightarrow> layer \<Rightarrow> parse_outcome" where
  "background_size tz props img =
     (case tokenizer_next tz of
        (None, tz1) \<Rightarrow> PThrow TypeError
      | (Some token, tz1) \<Rightarrow>
          if tokType token = IDENT \<and> js_in (tokVal token) sizeIdents then
            PContinue props (img\<lparr>size_field := Some (SizeIdent (tokVal token))\<rparr>) tz1
          else
            (case sizeToken token of
               None \<Rightarrow> PContinue props img tz1
             | Some w \<Rightarrow>
                 (case tokenizer_next tz1 of
                    (None, tz2) \<Rightarrow> PThrow TypeError
                  | (Some token2, tz2) \<Rightarrow>
                      (case sizeToken token2 of
                         Some h \<Rightarrow>
                           PContinue props (img\<lparr>size_field := Some (SizeWH w (Some h))\<rparr>) tz2
                       | None \<Rightarrow>
                           (case tokenizer_prev tz2 of
                              (None, tz3) \<Rightarrow>
                                PContinue props (img\<lparr>size_field := Some (SizeWH w None)\<rparr>) tz3
                            | (Some previous, tz3) \<Rightarrow>
                                PContinue props
                                  (img\<lparr>size_field := Some (SizeWH w (Some w))\<rparr>) tz3)))))"

definition parse_body :: "token \<Rightarrow> tokenizer \<Rightarrow> props \<Rightarrow> layer \<Rightarrow> parse_outcome" where
  "parse_body token tz props img =
     (if type img = None \<and> tokType token = FUNCTION \<and> tokVal token = ''linear-gradient('' then
        (case gradient_loop tz new_gradient empty_stop img of
           Inl e \<Rightarrow> PThrow e
         | Inr (img1, tz1) \<Rightarrow> PContinue props img1 tz1)
      else if type img = None \<and> tokType token = URL then
        PContinue props (img\<lparr>url := Some (tokVal token), type := Some ''image''\<rparr>) tz
      else if isBgPosToken token \<and> size_field img = None then
        (case tokenizer_until (\<lambda>t. \<not> isBgPosToken t) (snd (tokenizer_prev tz)) of
           (list, tz1) \<Rightarrow>
             PContinue props (img\<lparr>position := Some (BgPosition (butlast list))\<rparr>)
               (snd (tokenizer_prev tz1)))
      else if tokType token = IDENT then
        (if js_in (tokVal token) repeatIdents then
           PContinue props (img\<lparr>repeat := Some (tokVal token)\<rparr>) tz
         else if js_in (tokVal token) originIdents then
           (if js_in (tokVal token) clipIdents
            then PContinue props
                   (img\<lparr>origin := Some (tokVal token), clip := Some (tokVal token)\<rparr>) tz
            else PContinue props (img\<lparr>origin := Some (tokVal token)\<rparr>) tz)
         else if js_in (tokVal token) attachIdents then
           PContinue props (img\<lparr>attachment := Some (tokVal token)\<rparr>) tz
         else PContinue props img tz)
      else if tokType token = COLOR \<and> color props = None then
        PContinue (props\<lparr>color := Some (Color (tokVal token))\<rparr>) img tz
      else if tokType token = OPERATOR then
        (if tokVal token = ''/'' then background_size tz props img
         else if tokVal token = '','' \<and> type img \<noteq> None then
           PContinue (props\<lparr>images := images props @ [img]\<rparr>) empty_layer tz
         else PContinue props img tz)
      else PReturnNull)"

lemma background_size_advances:
  assumes "background_size tz props img = PContinue props1 img1 tz2"
  shows "tokens tz2 = tokens tz \<and> tokenIndex tz < tokenIndex tz2"
  using assms
  by (auto simp: background_size_def tokenizer_next_def tokenizer_prev_def
           split: if_splits option.splits)

lemma parse_body_advances:
  assumes "tokenizer_next tz = (Some token, tz1)"
    and "parse_body token tz1 props img = PContinue props1 img1 tz2"
  shows "tokens tz2 = tokens tz \<and> tokenIndex tz < tokenIndex tz2"
proof -
  from assms(1) have lt: "tokenIndex tz < length (tokens tz)"
    and tok: "token = tokens tz ! tokenIndex tz"
    and tz1: "tz1 = tz\<lparr>tokenIndex := tokenIndex tz + 1\<rparr>"
    using tokenizer_next_Some by blast+
  have pb: "snd (tokenizer_prev tz1) = tz"
    by (simp add: tz1 tokenizer_prev_def)
  have c1: "tokens tz1 = tokens tz" "tokenIndex tz1 = tokenIndex tz + 1"
    by (simp_all add: tz1)
  consider (gradient) "type img = None \<and> tokType token = FUNCTION \<and>
        tokVal token = ''linear-gradient(''"
    | (slash) "tokType token = OPERATOR" "tokVal token = ''/''"
    | (pos) "\<not> (type img = None \<and> tokType token = FUNCTION \<and>
        tokVal token = ''linear-gradient('')" "\<not> (type img = None \<and> tokType token = URL)"
        "isBgPosToken token \<and> size_field img = None"
    | (other) "\<not> (type img = None \<and> tokType token = FUNCTION \<and>
        tokVal token = ''linear-gradient('')" "\<not> (tokType token = OPERATOR \<and> tokVal token = ''/'')"
        "type img = None \<and> tokType token = URL \<or> \<not> (isBgPosToken token \<and> size_field img = None)"
    by blast
  then show ?thesis
  proof cases
    case gradient
    with assms(2) obtain g where
      "gradient_loop tz1 g empty_stop img = Inr (img1, tz2)"
      by (auto simp: parse_body_def split: sum.splits)
    from gradient_loop_advances [OF this] c1 show ?thesis by simp
  next
    case slash
    then have "\<not> isBgPosToken token"
      by (simp add: isBgPosToken_def isLengthOrPercent_def)
    with slash assms(2) have "background_size tz1 props img = PContinue props1 img1 tz2"
      by (simp add: parse_body_def)
    from background_size_advances [OF this] c1 show ?thesis by simp
  next
    case pos
    have two: "tokenIndex tz + 2 \<le>
        tokenIndex (snd (tokenizer_until (\<lambda>t. \<not> isBgPosToken t) tz))"
      using lt pos(3) tok by (intro tokenizer_until_index2) simp_all
    from pos assms(2) two c1 show ?thesis
      by (auto simp: parse_body_def pb case_prod_beta)
  next
    case other
    with assms(2) c1 show ?thesis
      by (auto simp: parse_body_def split: if_splits)
  qed
qed

text \<open>
  The outer loop, the flush of the leftover layer (lines 218 to 220) and \<open>return props\<close>.
  \<open>Inr None\<close> is the \<open>return null\<close> of line 213; \<open>Inl\<close> is an uncaught exception.
\<close>

function parse_loop :: "tokenizer \<Rightarrow> props \<Rightarrow> layer \<Rightarrow> error + props option" where
  "parse_loop tz props img =
     (case tokenizer_next tz of
        (None, tz1) \<Rightarrow>
          Inr (Some (if type img \<noteq> None then props\<lparr>images := images props @ [img]\<rparr> else props))
      | (Some token, tz1) \<Rightarrow>
          (case parse_body token tz1 props img of
             PThrow e \<Rightarrow> Inl e
           | PReturnNull \<Rightarrow> Inr None
           | PContinue props1 img1 tz2 \<Rightarrow> parse_loop tz2 props1 img1))"
  by pat_completeness auto
termination
proof (relation "measure (\<lambda>(tz, props, img). length (tokens tz) - tokenIndex tz)")
  show "wf (measure (\<lambda>(tz, props, img). length (tokens tz) - tokenIndex tz))"
    by simp
next
  fix tz props img x1 tz1 token props1 img1 tz2
  assume "(x1, tz1) = tokenizer_next tz" and "x1 = Some token"
    and "parse_body token tz1 props img = PContinue props1 img1 tz2"
  then have "tokenizer_next tz = (Some token, tz1)"
    and "parse_body token tz1 props img = PContinue props1 img1 tz2"
    by simp_all
  from parse_body_advances [OF this] tokenizer_next_Some [OF this(1)]
  show "((tz2, props1, img1), (tz, props, img))
          \<in> measure (\<lambda>(tz, props, img). length (tokens tz) - tokenIndex tz)"
    by (simp add: diff_less_mono2)
qed

declare parse_loop.simps [simp del]

text \<open>
  \<open>parseCss\<close> on the branch taken when the \<open>-pie-background\<close> property is present
  (\<open>getCss3()\<close> is truthy). The argument is the token sequence that \<open>new PIE.Tokenizer( css )\<close>
  yields for the CSS text; \<open>props = { images: [] }\<close> and \<open>image = {}\<close> at the start.
\<close>

definition parseCss :: "token list \<Rightarrow> error + props option" where
  "parseCss css =
     parse_loop \<lparr>tokens = css, tokenIndex = 0\<rparr> \<lparr>color = None, images = []\<rparr> empty_layer"

section \<open>The scoped read of the actual background\<close>

text \<open>
  \<open>withActualBg\<close> (lines 254 to 268). The state is the element's \<open>runtimeStyle\<close>, of which
  the function touches two fields; \<open>fn\<close> runs on it and either returns a value or raises,
  and in both cases leaves a state behind. There is no \<open>try\<close> around the call, so an
  exception leaves the function at once.
\<close>

record runtimeStyle =
  backgroundImage :: string
  backgroundColor :: string


section \<open>States the loops pass through\<close>

text \<open>
  The state at the head of the outer loop after \<open>n\<close> complete passes, when the loop gets
  that far; \<open>top_level_state\<close> starts it where \<open>parseCss\<close> does. The same for the inner loop.
\<close>

fun parse_reach ::
  "nat \<Rightarrow> tokenizer \<Rightarrow> props \<Rightarrow> layer \<Rightarrow> (tokenizer \<times> props \<times> layer) option" where
  "parse_reach 0 tz props img = Some (tz, props, img)"
| "parse_reach (Suc n) tz props img =
     (case tokenizer_next tz of
        (None, tz1) \<Rightarrow> None
      | (Some token, tz1) \<Rightarrow>
          (case parse_body token tz1 props img of
             PContinue props1 img1 tz2 \<Rightarrow> parse_reach n tz2 props1 img1
           | _ \<Rightarrow> None))"

definition top_level_state :: "token list \<Rightarrow> nat \<Rightarrow> (tokenizer \<times> props \<times> layer) option" where
  "top_level_state css n =
     parse_reach n \<lparr>tokens = css, tokenIndex = 0\<rparr> \<lparr>color = None, images = []\<rparr> empty_layer"

fun gradient_reach ::
  "nat \<Rightarrow> tokenizer \<Rightarrow> layer \<Rightarrow> stop \<Rightarrow> layer \<Rightarrow> (tokenizer \<times> layer \<times> stop) option" where
  "gradient_reach 0 tz gradient stop img = Some (tz, gradient, stop)"
| "gradient_reach (Suc n) tz gradient stop img =
     (case tokenizer_next tz of
        (None, tz1) \<Rightarrow> None
      | (Some token, tz1) \<Rightarrow>
          (case gradient_body token tz1 gradient stop img of
             GContinue gradient1 stop1 tz2 \<Rightarrow> gradient_reach n tz2 gradient1 stop1 img
           | _ \<Rightarrow> None))"

definition is_comma :: "token \<Rightarrow> bool" where
  "is_comma token = (tokType token = OPERATOR \<and> tokVal token = '','')"

text \<open>
  What holds of the cursor at every head of the inner loop: a token has been consumed, and
  if it is an operator it is a comma.
\<close>

definition last_token_ok :: "tokenizer \<Rightarrow> bool" where
  "last_token_ok tz =
     (1 \<le> tokenIndex tz \<and> tokenIndex tz \<le> length (tokens tz) \<and>
      (tokType (tokens tz ! (tokenIndex tz - 1)) \<noteq> OPERATOR \<or>
       is_comma (tokens tz ! (tokenIndex tz - 1))))"

section \<open>Unfolding the loops\<close>

lemma parse_loop_end:
  "tokenizer_next tz = (None, tz1) \<Longrightarrow>
     parse_loop tz props img =
       Inr (Some (if type img \<noteq> None then props\<lparr>images := images props @ [img]\<rparr> else props))"
  by (subst parse_loop.simps) simp

lemma parse_loop_step:
  "tokenizer_next tz = (Some token, tz1) \<Longrightarrow>
     parse_loop tz props img =
       (case parse_body token tz1 props img of
          PThrow e \<Rightarrow> Inl e
        | PReturnNull \<Rightarrow> Inr None
        | PContinue props1 img1 tz2 \<Rightarrow> parse_loop tz2 props1 img1)"
  by (subst parse_loop.simps) simp

lemma gradient_loop_end:
  "tokenizer_next tz = (None, tz1) \<Longrightarrow> gradient_loop tz gradient stop img = Inr (img, tz1)"
  by (subst gradient_loop.simps) simp

lemma gradient_loop_step:
  "tokenizer_next tz = (Some token, tz1) \<Longrightarrow>
     gradient_loop tz gradient stop img =
       (case gradient_body token tz1 gradient stop img of
          GThrow e \<Rightarrow> Inl e
        | GBreak img1 tz2 \<Rightarrow> Inr (img1, tz2)
        | GContinue gradient1 stop1 tz2 \<Rightarrow> gradient_loop tz2 gradient1 stop1 img)"
  by (subst gradient_loop.simps) simp

lemma parse_reach_loop:
  "parse_reach n tz props img = Some (tz', props', img') \<Longrightarrow>
     parse_loop tz props img = parse_loop tz' props' img'"
proof (induction n arbitrary: tz props img)
  case 0
  then show ?case by simp
next
  case (Suc n)
  from Suc.prems obtain token tz1 props1 img1 tz2 where
    nx: "tokenizer_next tz = (Some token, tz1)"
    and body: "parse_body token tz1 props img = PContinue props1 img1 tz2"
    and rest: "parse_reach n tz2 props1 img1 = Some (tz', props', img')"
    by (auto split: prod.splits option.splits parse_outcome.splits)
  from Suc.IH [OF rest] parse_loop_step [OF nx, of props img] body show ?case
    by simp
qed

lemma top_level_parse:
  "top_level_state css n = Some (tz, props, img) \<Longrightarrow> parseCss css = parse_loop tz props img"
  unfolding top_level_state_def parseCss_def by (rule parse_reach_loop)

lemma gradient_reach_loop:
  "gradient_reach n tz gradient stop img = Some (tz', gradient', stop') \<Longrightarrow>
     gradient_loop tz gradient stop img = gradient_loop tz' gradient' stop' img"
proof (induction n arbitrary: tz gradient stop)
  case 0
  then show ?case by simp
next
  case (Suc n)
  from Suc.prems obtain token tz1 gradient1 stop1 tz2 where
    nx: "tokenizer_next tz = (Some token, tz1)"
    and body: "gradient_body token tz1 gradient stop img = GContinue gradient1 stop1 tz2"
    and rest: "gradient_reach n tz2 gradient1 stop1 img = Some (tz', gradient', stop')"
    by (auto split: prod.splits option.splits gradient_outcome.splits)
  from Suc.IH [OF rest] gradient_loop_step [OF nx, of gradient stop img] body show ?case
    by simp
qed

lemma parse_body_gradient:
  "type img = None \<Longrightarrow> tokType token = FUNCTION \<Longrightarrow> tokVal token = ''linear-gradient('' \<Longrightarrow>
     parse_body token tz props img =
       (case gradient_loop tz new_gradient empty_stop img of
          Inl e \<Rightarrow> PThrow e
        | Inr (img1, tz1) \<Rightarrow> PContinue props img1 tz1)"
  by (simp add: parse_body_def)

section \<open>What a pass of a loop does to the layers\<close>

lemma color_not_position: "tokType token = COLOR \<Longrightarrow> \<not> isBgPosToken token"
  by (simp add: isBgPosToken_def isLengthOrPercent_def)

lemma parse_body_unrecognized:
  assumes "tokType token \<noteq> OPERATOR"
    and "\<not> (type img = None \<and> tokType token = FUNCTION \<and> tokVal token = ''linear-gradient('')"
    and "\<not> (type img = None \<and> tokType token = URL)"
    and "\<not> (isBgPosToken token \<and> size_field img = None)"
    and "tokType token \<noteq> IDENT"
    and "\<not> (tokType token = COLOR \<and> color props = None)"
  shows "parse_body token tz props img = PReturnNull"
  using assms by (auto simp: parse_body_def)

lemma parse_loop_null:
  "tokenizer_next tz = (Some token, tz1) \<Longrightarrow> parse_body token tz1 props img = PReturnNull \<Longrightarrow>
     parse_loop tz props img = Inr None"
  by (simp add: parse_loop_step)

lemma top_level_null:
  assumes "top_level_state css n = Some (tz, props, img)"
    and "tokenizer_next tz = (Some token, tz1)"
    and "parse_body token tz1 props img = PReturnNull"
  shows "parseCss css = Inr None"
  using top_level_parse [OF assms(1)] parse_loop_null [OF assms(2,3)] by simp

lemma gradient_body_break_layer:
  assumes "gradient_body token tz g s img = GBreak img1 tz1"
  shows "img1 = img \<or> (\<exists>g1. img1 = merge img g1 \<and> 1 < length (stops g1))"
proof (cases "tokType token = CHARACTER \<and> tokVal token = '')''")
  case True
  with assms show ?thesis
    by (auto simp: gradient_body_def Let_def split: if_splits)
next
  case False
  with assms have "img1 = img"
    by (auto simp: gradient_body_def color_stop_def Let_def case_prod_beta
             split: if_splits option.splits prod.splits)
  then show ?thesis ..
qed

lemma gradient_loop_layer:
  "gradient_loop tz g s img = Inr (img1, tz1) \<Longrightarrow>
     img1 = img \<or> (\<exists>g1. img1 = merge img g1 \<and> 1 < length (stops g1))"
proof (induction tz g s img rule: gradient_loop.induct)
  case (1 tz gradient stop img)
  obtain r tz' where nx: "tokenizer_next tz = (r, tz')"
    by (cases "tokenizer_next tz")
  show ?case
  proof (cases r)
    case None
    with nx "1.prems" show ?thesis
      by (simp add: gradient_loop_end)
  next
    case (Some token)
    with nx have nx': "tokenizer_next tz = (Some token, tz')" by simp
    show ?thesis
    proof (cases "gradient_body token tz' gradient stop img")
      case (GThrow e)
      with nx' "1.prems" show ?thesis
        by (simp add: gradient_loop_step)
    next
      case (GBreak img' tz'')
      with nx' "1.prems" have "img' = img1"
        by (simp add: gradient_loop_step)
      with gradient_body_break_layer [OF GBreak] show ?thesis by simp
    next
      case (GContinue g' s' tz'')
      with nx' "1.prems" have "gradient_loop tz'' g' s' img = Inr (img1, tz1)"
        by (simp add: gradient_loop_step)
      from "1.IH" [OF nx' [symmetric] refl GContinue this] show ?thesis .
    qed
  qed
qed

lemma background_size_layer:
  assumes "background_size tz props img = PContinue props1 img1 tz1"
  shows "props1 = props \<and> type img1 = type img \<and> stops img1 = stops img"
  using assms
  by (auto simp: background_size_def split: prod.splits option.splits if_splits)

lemma parse_body_layers:
  assumes body: "parse_body token tz props img = PContinue props1 img1 tz1"
    and img: "type img = Some ''linear-gradient'' \<longrightarrow> 1 < length (stops img)"
    and flushed: "\<forall>l \<in> set (images props). type l = Some ''linear-gradient'' \<longrightarrow> 1 < length (stops l)"
  shows "(type img1 = Some ''linear-gradient'' \<longrightarrow> 1 < length (stops img1)) \<and>
         (\<forall>l \<in> set (images props1). type l = Some ''linear-gradient'' \<longrightarrow> 1 < length (stops l))"
proof -
  consider (gradient) "type img = None \<and> tokType token = FUNCTION \<and>
        tokVal token = ''linear-gradient(''"
    | (slash) "tokType token = OPERATOR" "tokVal token = ''/''"
    | (other) "\<not> (type img = None \<and> tokType token = FUNCTION \<and>
        tokVal token = ''linear-gradient('')" "\<not> (tokType token = OPERATOR \<and> tokVal token = ''/'')"
    by blast
  then show ?thesis
  proof cases
    case gradient
    with body have loop: "gradient_loop tz new_gradient empty_stop img = Inr (img1, tz1)"
      and p: "props1 = props"
      by (auto simp: parse_body_def split: sum.splits)
    from gradient_loop_layer [OF loop] img flushed p show ?thesis
      by (auto simp: merge_def)
  next
    case slash
    then have "\<not> isBgPosToken token"
      by (simp add: isBgPosToken_def isLengthOrPercent_def)
    with slash body have "background_size tz props img = PContinue props1 img1 tz1"
      by (simp add: parse_body_def)
    from background_size_layer [OF this] img flushed show ?thesis
      by simp
  next
    case other
    with body img flushed show ?thesis
      by (auto simp: parse_body_def case_prod_beta empty_layer_def split: if_splits)
  qed
qed

lemma parse_loop_layers:
  "parse_loop tz props img = Inr (Some p) \<Longrightarrow>
   (type img = Some ''linear-gradient'' \<longrightarrow> 1 < length (stops img)) \<Longrightarrow>
   (\<forall>l \<in> set (images props). type l = Some ''linear-gradient'' \<longrightarrow> 1 < length (stops l)) \<Longrightarrow>
   (\<forall>l \<in> set (images p). type l = Some ''linear-gradient'' \<longrightarrow> 1 < length (stops l))"
proof (induction tz props img rule: parse_loop.induct)
  case (1 tz props img)
  obtain r tz' where nx: "tokenizer_next tz = (r, tz')"
    by (cases "tokenizer_next tz")
  show ?case
  proof (cases r)
    case None
    with nx "1.prems" show ?thesis
      by (auto simp: parse_loop_end split: if_splits)
  next
    case (Some token)
    with nx have nx': "tokenizer_next tz = (Some token, tz')" by simp
    show ?thesis
    proof (cases "parse_body token tz' props img")
      case (PThrow e)
      with nx' "1.prems"(1) show ?thesis
        by (simp add: parse_loop_step)
    next
      case PReturnNull
      with nx' "1.prems"(1) show ?thesis
        by (simp add: parse_loop_step)
    next
      case (PContinue props1 img1 tz1)
      with nx' "1.prems"(1) have rec: "parse_loop tz1 props1 img1 = Inr (Some p)"
        by (simp add: parse_loop_step)
      from parse_body_layers [OF PContinue "1.prems"(2,3)]
      have "type img1 = Some ''linear-gradient'' \<longrightarrow> 1 < length (stops img1)"
        and "\<forall>l \<in> set (images props1). type l = Some ''linear-gradient'' \<longrightarrow> 1 < length (stops l)"
        by blast+
      from "1.IH" [OF nx' [symmetric] refl PContinue rec this] show ?thesis .
    qed
  qed
qed

section \<open>The token before the cursor in the gradient sub-parser\<close>

lemma tokenizer_until_last:
  "tokenIndex tz < length (tokens tz) \<Longrightarrow> \<not> func (tokens tz ! tokenIndex tz) \<Longrightarrow>
     tokenIndex tz + 2 \<le> tokenIndex (snd (tokenizer_until func tz)) \<and>
     tokenIndex (snd (tokenizer_until func tz)) \<le> length (tokens tz) + 1 \<and>
     \<not> func (tokens tz ! (tokenIndex (snd (tokenizer_until func tz)) - 2))"
proof (induction "length (tokens tz) - tokenIndex tz" arbitrary: tz rule: less_induct)
  case less
  let ?tz1 = "tz\<lparr>tokenIndex := tokenIndex tz + 1\<rparr>"
  have unf: "snd (tokenizer_until func tz) = snd (tokenizer_until func ?tz1)"
    using less.prems by (subst tokenizer_until_unfold) (simp add: case_prod_beta)
  show ?case
  proof (cases "tokenIndex ?tz1 < length (tokens ?tz1) \<and> \<not> func (tokens ?tz1 ! tokenIndex ?tz1)")
    case True
    have "length (tokens ?tz1) - tokenIndex ?tz1 < length (tokens tz) - tokenIndex tz"
      using less.prems(1) by (simp add: Suc_diff_Suc diff_less_mono2)
    from less.hyps [OF this] True unf show ?thesis
      by simp
  next
    case False
    then have "snd (tokenizer_until func ?tz1) = ?tz1\<lparr>tokenIndex := tokenIndex ?tz1 + 1\<rparr>"
      by (subst tokenizer_until_unfold) auto
    with unf less.prems show ?thesis
      by simp
  qed
qed

lemma color_stop_last_token:
  assumes "color_stop v tz g = GContinue g1 s1 tz2"
    and "1 \<le> tokenIndex tz" and "tokenIndex tz \<le> length (tokens tz)"
    and "tokType (tokens tz ! (tokenIndex tz - 1)) = COLOR"
  shows "last_token_ok tz2"
  using assms
  by (auto simp: color_stop_def Let_def tokenizer_next_def tokenizer_prev_def last_token_ok_def
        isLengthOrPercent_def split: if_splits)

lemma gradient_body_last_token:
  assumes nx: "tokenizer_next tz = (Some token, tz1)"
    and body: "gradient_body token tz1 g s img = GContinue g1 s1 tz2"
  shows "last_token_ok tz2"
proof -
  from nx have lt: "tokenIndex tz < length (tokens tz)"
    and tok: "token = tokens tz ! tokenIndex tz"
    and tz1: "tz1 = tz\<lparr>tokenIndex := tokenIndex tz + 1\<rparr>"
    using tokenizer_next_Some by blast+
  have pb: "snd (tokenizer_prev tz1) = tz"
    by (simp add: tz1 tokenizer_prev_def)
  have again: "snd (tokenizer_next tz) = tz1"
    using nx by simp
  have c1: "tokens tz1 = tokens tz" "tokenIndex tz1 = tokenIndex tz + 1"
    by (simp_all add: tz1)
  have kind: "tokType token \<noteq> ANGLE \<and> tokType token \<noteq> OPERATOR \<and> tokType token \<noteq> CHARACTER"
    if "isBgPosToken token"
    using that by (auto simp: isBgPosToken_def isLengthOrPercent_def)
  consider (color) "tokType token = COLOR"
    | (pos) "tokType token \<noteq> COLOR" "isBgPosToken token"
    | (other) "tokType token \<noteq> COLOR" "\<not> isBgPosToken token"
    by blast
  then show ?thesis
  proof cases
    case color
    obtain previous where pv: "tokenizer_prev tz1 = (previous, tz)"
      by (simp add: tokenizer_prev_def tz1)
    from color body have cs: "color_stop (tokVal token) tz1 g = GContinue g1 s1 tz2"
      by (auto simp: gradient_body_def pv again split: if_splits option.splits)
    from color lt tok c1 show ?thesis
      by (intro color_stop_last_token [OF cs]) simp_all
  next
    case pos
    let ?u = "snd (tokenizer_until (\<lambda>t. \<not> isBgPosToken t) tz)"
    from pos body kind have tz2: "tz2 = snd (tokenizer_prev ?u)"
      by (auto simp: gradient_body_def pb case_prod_beta split: if_splits)
    define k where "k = tokenIndex ?u"
    have "tokenIndex tz + 2 \<le> tokenIndex ?u \<and> tokenIndex ?u \<le> length (tokens tz) + 1 \<and>
        \<not> \<not> isBgPosToken (tokens tz ! (tokenIndex ?u - 2))"
      using lt pos(2) tok by (intro tokenizer_until_last) simp_all
    then have k: "2 \<le> k" "k \<le> length (tokens tz) + 1" "isBgPosToken (tokens tz ! (k - 2))"
      by (simp_all add: k_def)
    then have "tokType (tokens tz ! (k - 2)) \<noteq> OPERATOR"
      by (auto simp: isBgPosToken_def isLengthOrPercent_def)
    moreover have "k - 1 - 1 = k - 2" by simp
    moreover have "tokens tz2 = tokens tz" "tokenIndex tz2 = k - 1"
      by (simp_all add: tz2 k_def)
    ultimately show ?thesis
      using k(1,2) unfolding last_token_ok_def by auto
  next
    case other
    with body c1 lt tok show ?thesis
      by (auto simp: gradient_body_def last_token_ok_def is_comma_def split: if_splits)
  qed
qed

lemma gradient_reach_last_token:
  "gradient_reach n tz g s img = Some (tz', g', s') \<Longrightarrow> last_token_ok tz \<Longrightarrow> last_token_ok tz'"
proof (induction n arbitrary: tz g s)
  case 0
  then show ?case by simp
next
  case (Suc n)
  from Suc.prems(1) obtain token tz1 g1 s1 tz2 where
    nx: "tokenizer_next tz = (Some token, tz1)"
    and body: "gradient_body token tz1 g s img = GContinue g1 s1 tz2"
    and rest: "gradient_reach n tz2 g1 s1 img = Some (tz', g', s')"
    by (auto split: prod.splits option.splits gradient_outcome.splits)
  from Suc.IH [OF rest gradient_body_last_token [OF nx body]] show ?case .
qed

lemma after_function_token:
  "tokenizer_next tz = (Some token, tz1) \<Longrightarrow> tokType token = FUNCTION \<Longrightarrow> last_token_ok tz1"
  by (auto simp: tokenizer_next_def last_token_ok_def split: if_splits)

section \<open>From a break of the sub-parser back to the top-level loop\<close>

lemma gradient_break_resumes:
  assumes "top_level_state css n = Some (tz0, props, img)"
    and "tokenizer_next tz0 = (Some function_token, tz1)"
    and "type img = None"
    and "tokType function_token = FUNCTION"
    and "tokVal function_token = ''linear-gradient(''"
    and "gradient_reach m tz1 new_gradient empty_stop img = Some (tz, gradient, stop)"
    and "tokenizer_next tz = (Some token, tz')"
    and "gradient_body token tz' gradient stop img = GBreak img1 tz2"
  shows "parseCss css = parse_loop tz2 props img1"
proof -
  have "gradient_loop tz1 new_gradient empty_stop img = Inr (img1, tz2)"
    using gradient_reach_loop [OF assms(6)] gradient_loop_step [OF assms(7), of gradient stop img]
      assms(8) by simp
  with assms(3,4,5) have "parse_body function_token tz1 props img = PContinue props img1 tz2"
    by (simp add: parse_body_gradient)
  with top_level_parse [OF assms(1)] parse_loop_step [OF assms(2), of props img]
  show ?thesis
    by simp
qed

lemma gradient_body_soft_break:
  assumes "tokenizer_next tz = (Some token, tz')"
    and "gradient_body token tz' gradient stop img = GBreak img1 tz2"
    and "\<not> (tokType token = CHARACTER \<and> tokVal token = '')'' \<and>
            1 < length (stops gradient) + (if stopColor stop = None then 0 else 1))"
  shows "img1 = img \<and> tz2 = (if tokType token = COLOR then tz else tz')"
proof -
  from assms(1) have tz': "tz' = tz\<lparr>tokenIndex := tokenIndex tz + 1\<rparr>"
    using tokenizer_next_Some by blast
  obtain previous where pv: "tokenizer_prev tz' = (previous, tz)"
    by (simp add: tz' tokenizer_prev_def)
  from assms(2,3) have "img1 = img"
    by (auto simp: gradient_body_def color_stop_def Let_def case_prod_beta
             split: if_splits option.splits prod.splits)
  moreover from assms(2) have "tz2 = (if tokType token = COLOR then tz else tz')"
    by (auto simp: gradient_body_def color_stop_def Let_def case_prod_beta pv
             split: if_splits option.splits)
  ultimately show ?thesis by simp
qed

section \<open>The colour of the descriptor\<close>

lemma parse_body_color:
  assumes "parse_body token tz props img = PContinue props1 img1 tz1"
  shows "color props1 = color props \<or>
         (tokType token = COLOR \<and> color props = None \<and>
          color props1 = Some (Color (tokVal token)) \<and> img1 = img \<and> tz1 = tz)"
proof -
  consider (gradient) "type img = None \<and> tokType token = FUNCTION \<and>
        tokVal token = ''linear-gradient(''"
    | (slash) "tokType token = OPERATOR" "tokVal token = ''/''"
    | (other) "\<not> (type img = None \<and> tokType token = FUNCTION \<and>
        tokVal token = ''linear-gradient('')" "\<not> (tokType token = OPERATOR \<and> tokVal token = ''/'')"
    by blast
  then show ?thesis
  proof cases
    case gradient
    with assms have "props1 = props"
      by (auto simp: parse_body_def split: sum.splits)
    then show ?thesis by simp
  next
    case slash
    then have "\<not> isBgPosToken token"
      by (simp add: isBgPosToken_def isLengthOrPercent_def)
    with slash assms have "background_size tz props img = PContinue props1 img1 tz1"
      by (simp add: parse_body_def)
    from background_size_layer [OF this] show ?thesis
      by simp
  next
    case other
    with assms show ?thesis
      by (auto simp: parse_body_def case_prod_beta split: if_splits)
  qed
qed

lemma parse_loop_color:
  "parse_loop tz props img = Inr (Some p) \<Longrightarrow> color props = Some c \<Longrightarrow> color p = Some c"
proof (induction tz props img rule: parse_loop.induct)
  case (1 tz props img)
  obtain r tz' where nx: "tokenizer_next tz = (r, tz')"
    by (cases "tokenizer_next tz")
  show ?case
  proof (cases r)
    case None
    with nx "1.prems" show ?thesis
      by (auto simp: parse_loop_end split: if_splits)
  next
    case (Some token)
    with nx have nx': "tokenizer_next tz = (Some token, tz')" by simp
    show ?thesis
    proof (cases "parse_body token tz' props img")
      case (PThrow e)
      with nx' "1.prems"(1) show ?thesis
        by (simp add: parse_loop_step)
    next
      case PReturnNull
      with nx' "1.prems"(1) show ?thesis
        by (simp add: parse_loop_step)
    next
      case (PContinue props1 img1 tz1)
      with nx' "1.prems"(1) have rec: "parse_loop tz1 props1 img1 = Inr (Some p)"
        by (simp add: parse_loop_step)
      from parse_body_color [OF PContinue] "1.prems"(2) have "color props1 = Some c"
        by auto
      from "1.IH" [OF nx' [symmetric] refl PContinue rec this] show ?thesis .
    qed
  qed
qed

lemma parse_reach_one_more:
  "parse_reach n tz props img = Some (tz', props', img') \<Longrightarrow>
     parse_reach (Suc n) tz props img = parse_reach (Suc 0) tz' props' img'"
proof (induction n arbitrary: tz props img)
  case 0
  then show ?case by simp
next
  case (Suc n)
  from Suc.prems obtain token tz1 props1 img1 tz2 where
    nx: "tokenizer_next tz = (Some token, tz1)"
    and body: "parse_body token tz1 props img = PContinue props1 img1 tz2"
    and rest: "parse_reach n tz2 props1 img1 = Some (tz', props', img')"
    by (auto split: prod.splits option.splits parse_outcome.splits)
  from Suc.IH [OF rest] nx body show ?case
    by simp
qed

lemma top_level_state_step:
  assumes "top_level_state css n = Some (tz, props, img)"
    and "tokenizer_next tz = (Some token, tz1)"
    and "parse_body token tz1 props img = PContinue props1 img1 tz2"
  shows "top_level_state css (Suc n) = Some (tz2, props1, img1)"
  using parse_reach_one_more [OF assms(1) [unfolded top_level_state_def]] assms(2,3)
  by (simp add: top_level_state_def)

section \<open>The claims\<close>

text \<open>
  C1. A token fetched by the top-level loop that matches none of the gradient, URL, position,
  identifier and colour branches and is not an operator token makes \<open>parseCss\<close> return
  \<open>null\<close>, whatever was parsed before it. An operator token never reaches that branch: the
  operator branch takes every operator token, and one that is neither \<open>/\<close> nor \<open>,\<close> is
  skipped with the descriptor, the layer and the cursor unchanged.
\<close>

theorem unrecognized_token_returns_null:
  assumes "top_level_state css n = Some (tz, props, img)"
    and "tokenizer_next tz = (Some token, tz1)"
  shows "(tokType token \<noteq> OPERATOR \<and>
          \<not> (type img = None \<and> tokType token = FUNCTION \<and> tokVal token = ''linear-gradient('') \<and>
          \<not> (type img = None \<and> tokType token = URL) \<and>
          \<not> (isBgPosToken token \<and> size_field img = None) \<and>
          tokType token \<noteq> IDENT \<and>
          \<not> (tokType token = COLOR \<and> color props = None)
            \<longrightarrow> parseCss css = Inr None) \<and>
         (tokType token = OPERATOR \<and> tokVal token \<noteq> ''/'' \<and> tokVal token \<noteq> '',''
            \<longrightarrow> parse_body token tz1 props img = PContinue props img tz1 \<and>
                parseCss css = parse_loop tz1 props img)"
proof (intro conjI impI)
  assume "tokType token \<noteq> OPERATOR \<and>
          \<not> (type img = None \<and> tokType token = FUNCTION \<and> tokVal token = ''linear-gradient('') \<and>
          \<not> (type img = None \<and> tokType token = URL) \<and>
          \<not> (isBgPosToken token \<and> size_field img = None) \<and>
          tokType token \<noteq> IDENT \<and>
          \<not> (tokType token = COLOR \<and> color props = None)"
  then have "parse_body token tz1 props img = PReturnNull"
    by (intro parse_body_unrecognized) simp_all
  with assms show "parseCss css = Inr None"
    by (rule top_level_null)
next
  assume op: "tokType token = OPERATOR \<and> tokVal token \<noteq> ''/'' \<and> tokVal token \<noteq> '',''"
  then show body: "parse_body token tz1 props img = PContinue props img tz1"
    by (simp add: parse_body_def isBgPosToken_def isLengthOrPercent_def)
  with top_level_parse [OF assms(1)] parse_loop_step [OF assms(2), of props img]
  show "parseCss css = parse_loop tz1 props img"
    by simp
qed

text \<open>
  The theorem at \<open>url(a.png) %\<close>, where the stray character ends the parse, and at a lone
  \<open>+\<close> operator, which the loop passes over.
\<close>

theorem unrecognized_token_returns_null_witness:
  "parseCss [\<lparr>tokType = URL, tokVal = ''a.png''\<rparr>, \<lparr>tokType = CHARACTER, tokVal = ''%''\<rparr>] = Inr None \<and>
   parseCss [\<lparr>tokType = OPERATOR, tokVal = ''+''\<rparr>] =
     parse_loop \<lparr>tokens = [\<lparr>tokType = OPERATOR, tokVal = ''+''\<rparr>], tokenIndex = 1\<rparr>
       \<lparr>color = None, images = []\<rparr> empty_layer"
proof
  let ?css = "[\<lparr>tokType = URL, tokVal = ''a.png''\<rparr>, \<lparr>tokType = CHARACTER, tokVal = ''%''\<rparr>]"
  let ?img = "empty_layer\<lparr>url := Some ''a.png'', type := Some ''image''\<rparr>"
  have st: "top_level_state ?css (Suc 0) =
      Some (\<lparr>tokens = ?css, tokenIndex = 1\<rparr>, \<lparr>color = None, images = []\<rparr>, ?img)"
    by code_simp
  have nx: "tokenizer_next \<lparr>tokens = ?css, tokenIndex = 1\<rparr> =
      (Some \<lparr>tokType = CHARACTER, tokVal = ''%''\<rparr>, \<lparr>tokens = ?css, tokenIndex = 2\<rparr>)"
    by code_simp
  from unrecognized_token_returns_null [OF st nx]
  show "parseCss ?css = Inr None"
    by (simp add: isBgPosToken_def isLengthOrPercent_def)
next
  let ?css = "[\<lparr>tokType = OPERATOR, tokVal = ''+''\<rparr>]"
  have st: "top_level_state ?css 0 =
      Some (\<lparr>tokens = ?css, tokenIndex = 0\<rparr>, \<lparr>color = None, images = []\<rparr>, empty_layer)"
    by code_simp
  have nx: "tokenizer_next \<lparr>tokens = ?css, tokenIndex = 0\<rparr> =
      (Some \<lparr>tokType = OPERATOR, tokVal = ''+''\<rparr>, \<lparr>tokens = ?css, tokenIndex = 1\<rparr>)"
    by code_simp
  from unrecognized_token_returns_null [OF st nx]
  show "parseCss ?css =
     parse_loop \<lparr>tokens = ?css, tokenIndex = 1\<rparr> \<lparr>color = None, images = []\<rparr> empty_layer"
    by simp
qed

text \<open>
  Against C1 as it is worded: an operator token other than \<open>/\<close> and \<open>,\<close> does not fail the
  parse. A value that consists of the single operator \<open>+\<close> yields the empty descriptor.
\<close>

theorem other_operator_is_ignored:
  "parseCss [\<lparr>tokType = OPERATOR, tokVal = ''+''\<rparr>] = Inr (Some \<lparr>color = None, images = []\<rparr>)"
  by code_simp

text \<open>
  C2. \<open>parseCss\<close> is total here (both loops come with a termination proof), but it does not
  always return: when the stream ends right after a stop colour of a gradient, or right after
  a \<open>/\<close> operator, the lookahead \<open>tokenizer.next()\<close> yields the sentinel and the next
  property read (\<open>token.type\<close>, lines 73 and 193) raises \<open>TypeError\<close>. The inputs are
  \<open>linear-gradient(red\<close> and \<open>url(a.png) /\<close>.
\<close>

theorem parseCss_throws_at_end_of_stream:
  "parseCss [\<lparr>tokType = FUNCTION, tokVal = ''linear-gradient(''\<rparr>, \<lparr>tokType = COLOR, tokVal = ''red''\<rparr>] =
     Inl TypeError \<and>
   parseCss [\<lparr>tokType = URL, tokVal = ''a.png''\<rparr>, \<lparr>tokType = OPERATOR, tokVal = ''/''\<rparr>] =
     Inl TypeError"
  by code_simp

text \<open>
  C3. When a pass of the gradient sub-parser ends in a \<open>break\<close> other than the successful one
  (the closing parenthesis with at least two stops), the layer accumulator is as it was
  before the gradient, nothing is added to the flushed layers, and the parse goes on in the
  top-level loop: at the token after the one that caused the \<open>break\<close>, except that a colour
  token that caused it was pushed back, and the loop resumes at that colour token itself.
  Whether the parse then succeeds depends on the tokens that follow.
\<close>

theorem discarded_gradient_resumes_top_level:
  assumes "top_level_state css n = Some (tz0, props, img)"
    and "tokenizer_next tz0 = (Some function_token, tz1)"
    and "type img = None"
    and "tokType function_token = FUNCTION"
    and "tokVal function_token = ''linear-gradient(''"
    and "gradient_reach m tz1 new_gradient empty_stop img = Some (tz, gradient, stop)"
    and "tokenizer_next tz = (Some token, tz')"
    and "gradient_body token tz' gradient stop img = GBreak img1 tz2"
    and "\<not> (tokType token = CHARACTER \<and> tokVal token = '')'' \<and>
            1 < length (stops gradient) + (if stopColor stop = None then 0 else 1))"
  shows "img1 = img \<and> tz2 = (if tokType token = COLOR then tz else tz') \<and>
         parseCss css = parse_loop tz2 props img"
proof -
  from gradient_body_soft_break [OF assms(7,8,9)]
  have soft: "img1 = img" "tz2 = (if tokType token = COLOR then tz else tz')"
    by simp_all
  from gradient_break_resumes [OF assms(1,2,3,4,5,6,7,8)] soft(1)
  have "parseCss css = parse_loop tz2 props img"
    by simp
  with soft show ?thesis by simp
qed

text \<open>
  The theorem at \<open>linear-gradient(red), url(b.png)\<close>: the single-stop gradient is dropped at
  its closing parenthesis, the parse resumes behind it and returns the one image layer. And
  at \<open>linear-gradient(45deg red\<close>, where the colour is pushed back and the parse resumes at it.
\<close>

theorem discarded_gradient_resumes_top_level_witness:
  "parseCss [\<lparr>tokType = FUNCTION, tokVal = ''linear-gradient(''\<rparr>, \<lparr>tokType = COLOR, tokVal = ''red''\<rparr>,
             \<lparr>tokType = CHARACTER, tokVal = '')''\<rparr>, \<lparr>tokType = OPERATOR, tokVal = '',''\<rparr>,
             \<lparr>tokType = URL, tokVal = ''b.png''\<rparr>] =
     parse_loop
       \<lparr>tokens = [\<lparr>tokType = FUNCTION, tokVal = ''linear-gradient(''\<rparr>,
                   \<lparr>tokType = COLOR, tokVal = ''red''\<rparr>,
                   \<lparr>tokType = CHARACTER, tokVal = '')''\<rparr>, \<lparr>tokType = OPERATOR, tokVal = '',''\<rparr>,
                   \<lparr>tokType = URL, tokVal = ''b.png''\<rparr>], tokenIndex = 3\<rparr>
       \<lparr>color = None, images = []\<rparr> empty_layer \<and>
   parseCss [\<lparr>tokType = FUNCTION, tokVal = ''linear-gradient(''\<rparr>, \<lparr>tokType = COLOR, tokVal = ''red''\<rparr>,
             \<lparr>tokType = CHARACTER, tokVal = '')''\<rparr>, \<lparr>tokType = OPERATOR, tokVal = '',''\<rparr>,
             \<lparr>tokType = URL, tokVal = ''b.png''\<rparr>] =
     Inr (Some \<lparr>color = None,
                 images = [empty_layer\<lparr>url := Some ''b.png'', type := Some ''image''\<rparr>]\<rparr>) \<and>
   parseCss [\<lparr>tokType = FUNCTION, tokVal = ''linear-gradient(''\<rparr>, \<lparr>tokType = ANGLE, tokVal = ''45deg''\<rparr>,
             \<lparr>tokType = COLOR, tokVal = ''red''\<rparr>] =
     parse_loop
       \<lparr>tokens = [\<lparr>tokType = FUNCTION, tokVal = ''linear-gradient(''\<rparr>,
                   \<lparr>tokType = ANGLE, tokVal = ''45deg''\<rparr>, \<lparr>tokType = COLOR, tokVal = ''red''\<rparr>],
         tokenIndex = 2\<rparr>
       \<lparr>color = None, images = []\<rparr> empty_layer"
proof (intro conjI)
  let ?css = "[\<lparr>tokType = FUNCTION, tokVal = ''linear-gradient(''\<rparr>,
               \<lparr>tokType = COLOR, tokVal = ''red''\<rparr>,
               \<lparr>tokType = CHARACTER, tokVal = '')''\<rparr>, \<lparr>tokType = OPERATOR, tokVal = '',''\<rparr>,
               \<lparr>tokType = URL, tokVal = ''b.png''\<rparr>]"
  let ?props = "\<lparr>color = None, images = []\<rparr>"
  let ?stop = "\<lparr>stopColor = Some (Color ''red''), offset = None\<rparr>"
  have st: "top_level_state ?css 0 = Some (\<lparr>tokens = ?css, tokenIndex = 0\<rparr>, ?props, empty_layer)"
    by code_simp
  have nx: "tokenizer_next \<lparr>tokens = ?css, tokenIndex = 0\<rparr> =
      (Some \<lparr>tokType = FUNCTION, tokVal = ''linear-gradient(''\<rparr>, \<lparr>tokens = ?css, tokenIndex = 1\<rparr>)"
    by code_simp
  have ty: "type empty_layer = None"
    by code_simp
  have gr: "gradient_reach (Suc 0) \<lparr>tokens = ?css, tokenIndex = 1\<rparr> new_gradient empty_stop
      empty_layer = Some (\<lparr>tokens = ?css, tokenIndex = 2\<rparr>, new_gradient, ?stop)"
    by code_simp
  have nx2: "tokenizer_next \<lparr>tokens = ?css, tokenIndex = 2\<rparr> =
      (Some \<lparr>tokType = CHARACTER, tokVal = '')''\<rparr>, \<lparr>tokens = ?css, tokenIndex = 3\<rparr>)"
    by code_simp
  have br: "gradient_body \<lparr>tokType = CHARACTER, tokVal = '')''\<rparr> \<lparr>tokens = ?css, tokenIndex = 3\<rparr>
      new_gradient ?stop empty_layer = GBreak empty_layer \<lparr>tokens = ?css, tokenIndex = 3\<rparr>"
    by code_simp
  have few: "\<not> (tokType \<lparr>tokType = CHARACTER, tokVal = '')''\<rparr> = CHARACTER \<and>
      tokVal \<lparr>tokType = CHARACTER, tokVal = '')''\<rparr> = '')'' \<and>
      1 < length (stops new_gradient) + (if stopColor ?stop = None then 0 else 1))"
    by (simp add: new_gradient_def empty_layer_def)
  from discarded_gradient_resumes_top_level [OF st nx ty _ _ gr nx2 br few]
  show "parseCss ?css = parse_loop \<lparr>tokens = ?css, tokenIndex = 3\<rparr> ?props empty_layer"
    by simp
next
  show "parseCss [\<lparr>tokType = FUNCTION, tokVal = ''linear-gradient(''\<rparr>,
             \<lparr>tokType = COLOR, tokVal = ''red''\<rparr>,
             \<lparr>tokType = CHARACTER, tokVal = '')''\<rparr>, \<lparr>tokType = OPERATOR, tokVal = '',''\<rparr>,
             \<lparr>tokType = URL, tokVal = ''b.png''\<rparr>] =
     Inr (Some \<lparr>color = None,
                 images = [empty_layer\<lparr>url := Some ''b.png'', type := Some ''image''\<rparr>]\<rparr>)"
    by code_simp
next
  let ?css = "[\<lparr>tokType = FUNCTION, tokVal = ''linear-gradient(''\<rparr>,
               \<lparr>tokType = ANGLE, tokVal = ''45deg''\<rparr>, \<lparr>tokType = COLOR, tokVal = ''red''\<rparr>]"
  let ?props = "\<lparr>color = None, images = []\<rparr>"
  let ?g = "new_gradient\<lparr>angle := Some (Angle ''45deg'')\<rparr>"
  have st: "top_level_state ?css 0 = Some (\<lparr>tokens = ?css, tokenIndex = 0\<rparr>, ?props, empty_layer)"
    by code_simp
  have nx: "tokenizer_next \<lparr>tokens = ?css, tokenIndex = 0\<rparr> =
      (Some \<lparr>tokType = FUNCTION, tokVal = ''linear-gradient(''\<rparr>, \<lparr>tokens = ?css, tokenIndex = 1\<rparr>)"
    by code_simp
  have ty: "type empty_layer = None"
    by code_simp
  have gr: "gradient_reach (Suc 0) \<lparr>tokens = ?css, tokenIndex = 1\<rparr> new_gradient empty_stop
      empty_layer = Some (\<lparr>tokens = ?css, tokenIndex = 2\<rparr>, ?g, empty_stop)"
    by code_simp
  have nx2: "tokenizer_next \<lparr>tokens = ?css, tokenIndex = 2\<rparr> =
      (Some \<lparr>tokType = COLOR, tokVal = ''red''\<rparr>, \<lparr>tokens = ?css, tokenIndex = 3\<rparr>)"
    by code_simp
  have br: "gradient_body \<lparr>tokType = COLOR, tokVal = ''red''\<rparr> \<lparr>tokens = ?css, tokenIndex = 3\<rparr>
      ?g empty_stop empty_layer = GBreak empty_layer \<lparr>tokens = ?css, tokenIndex = 2\<rparr>"
    by code_simp
  from discarded_gradient_resumes_top_level [OF st nx ty _ _ gr nx2 br]
  show "parseCss ?css = parse_loop \<lparr>tokens = ?css, tokenIndex = 2\<rparr> ?props empty_layer"
    by simp
qed

text \<open>
  Against C3 as it is worded: \<open>linear-gradient(foo), url(b.png)\<close>. The identifier ends the
  sub-parser, the top-level loop resumes at the closing parenthesis of the gradient, which
  no branch matches, and the whole parse returns \<open>null\<close>: the image layer behind the comma is
  lost with it.
\<close>

theorem malformed_gradient_fails_parse:
  "parseCss [\<lparr>tokType = FUNCTION, tokVal = ''linear-gradient(''\<rparr>, \<lparr>tokType = IDENT, tokVal = ''foo''\<rparr>,
             \<lparr>tokType = CHARACTER, tokVal = '')''\<rparr>, \<lparr>tokType = OPERATOR, tokVal = '',''\<rparr>,
             \<lparr>tokType = URL, tokVal = ''b.png''\<rparr>] = Inr None"
  by code_simp

text \<open>
  C4. Every layer of type \<open>linear-gradient\<close> in a descriptor that \<open>parseCss\<close> returns has more
  than one stop. A gradient that has collected at most one stop (counting the pending one)
  when its closing parenthesis comes is dropped, but the layer it stands in is not: the
  accumulator stays exactly as it was before the gradient, with whatever it had collected,
  nothing is flushed, and the parse resumes behind the parenthesis. \<open>linear-gradient(red)\<close>
  yields the descriptor with no layer.
\<close>

theorem gradient_layers_have_two_stops:
  "(\<forall>css p l. parseCss css = Inr (Some p) \<longrightarrow> l \<in> set (images p) \<longrightarrow>
       type l = Some ''linear-gradient'' \<longrightarrow> 1 < length (stops l)) \<and>
   (\<forall>(token :: token) tz gradient stop img.
       tokType token = CHARACTER \<longrightarrow> tokVal token = '')'' \<longrightarrow>
       length (stops gradient) + (if stopColor stop = None then 0 else 1) \<le> 1 \<longrightarrow>
       gradient_body token tz gradient stop img = GBreak img tz) \<and>
   (\<forall>css n tz0 props img function_token tz1 m tz gradient stop token tz'.
       top_level_state css n = Some (tz0, props, img) \<longrightarrow>
       tokenizer_next tz0 = (Some function_token, tz1) \<longrightarrow>
       type img = None \<longrightarrow>
       tokType function_token = FUNCTION \<longrightarrow>
       tokVal function_token = ''linear-gradient('' \<longrightarrow>
       gradient_reach m tz1 new_gradient empty_stop img = Some (tz, gradient, stop) \<longrightarrow>
       tokenizer_next tz = (Some token, tz') \<longrightarrow>
       tokType token = CHARACTER \<longrightarrow> tokVal token = '')'' \<longrightarrow>
       length (stops gradient) + (if stopColor stop = None then 0 else 1) \<le> 1 \<longrightarrow>
       parseCss css = parse_loop tz' props img) \<and>
   parseCss [\<lparr>tokType = FUNCTION, tokVal = ''linear-gradient(''\<rparr>, \<lparr>tokType = COLOR, tokVal = ''red''\<rparr>,
             \<lparr>tokType = CHARACTER, tokVal = '')''\<rparr>] = Inr (Some \<lparr>color = None, images = []\<rparr>)"
proof (intro conjI allI impI)
  fix css p l
  assume "parseCss css = Inr (Some p)" and "l \<in> set (images p)"
    and "type l = Some ''linear-gradient''"
  with parse_loop_layers [of "\<lparr>tokens = css, tokenIndex = 0\<rparr>" "\<lparr>color = None, images = []\<rparr>"
      empty_layer p]
  show "1 < length (stops l)"
    by (simp add: parseCss_def empty_layer_def)
next
  fix token :: token and tz and gradient :: layer and stop :: stop and img
  assume "tokType token = CHARACTER" and "tokVal token = '')''"
    and "length (stops gradient) + (if stopColor stop = None then 0 else 1) \<le> 1"
  then show "gradient_body token tz gradient stop img = GBreak img tz"
    by (auto simp: gradient_body_def Let_def split: if_splits)
next
  fix css n tz0 props img function_token tz1 m tz and gradient :: layer and stop :: stop
    and token :: token and tz'
  assume st: "top_level_state css n = Some (tz0, props, img)"
    and nx: "tokenizer_next tz0 = (Some function_token, tz1)"
    and ty: "type img = None"
    and fn: "tokType function_token = FUNCTION" "tokVal function_token = ''linear-gradient(''"
    and gr: "gradient_reach m tz1 new_gradient empty_stop img = Some (tz, gradient, stop)"
    and nx2: "tokenizer_next tz = (Some token, tz')"
    and paren: "tokType token = CHARACTER" "tokVal token = '')''"
    and few: "length (stops gradient) + (if stopColor stop = None then 0 else 1) \<le> 1"
  from paren few have "gradient_body token tz' gradient stop img = GBreak img tz'"
    by (auto simp: gradient_body_def Let_def split: if_splits)
  from gradient_break_resumes [OF st nx ty fn gr nx2 this]
  show "parseCss css = parse_loop tz' props img" .
next
  show "parseCss [\<lparr>tokType = FUNCTION, tokVal = ''linear-gradient(''\<rparr>,
             \<lparr>tokType = COLOR, tokVal = ''red''\<rparr>,
             \<lparr>tokType = CHARACTER, tokVal = '')''\<rparr>] = Inr (Some \<lparr>color = None, images = []\<rparr>)"
    by code_simp
qed

text \<open>
  The theorem at \<open>linear-gradient(red, blue)\<close>, whose one layer has two stops, and at
  \<open>no-repeat linear-gradient(red), url(b.png)\<close>, where the parse resumes behind the
  parenthesis with the accumulator still holding \<open>no-repeat\<close>.
\<close>

theorem gradient_layers_have_two_stops_witness:
  "parseCss [\<lparr>tokType = FUNCTION, tokVal = ''linear-gradient(''\<rparr>, \<lparr>tokType = COLOR, tokVal = ''red''\<rparr>,
             \<lparr>tokType = OPERATOR, tokVal = '',''\<rparr>, \<lparr>tokType = COLOR, tokVal = ''blue''\<rparr>,
             \<lparr>tokType = CHARACTER, tokVal = '')''\<rparr>] =
     Inr (Some \<lparr>color = None,
                 images = [new_gradient\<lparr>stops := [\<lparr>stopColor = Some (Color ''red''), offset = None\<rparr>,
                                                   \<lparr>stopColor = Some (Color ''blue''), offset = None\<rparr>]\<rparr>]\<rparr>) \<and>
   1 < length (stops (new_gradient\<lparr>stops := [\<lparr>stopColor = Some (Color ''red''), offset = None\<rparr>,
                                               \<lparr>stopColor = Some (Color ''blue''), offset = None\<rparr>]\<rparr>)) \<and>
   parseCss [\<lparr>tokType = IDENT, tokVal = ''no-repeat''\<rparr>,
             \<lparr>tokType = FUNCTION, tokVal = ''linear-gradient(''\<rparr>, \<lparr>tokType = COLOR, tokVal = ''red''\<rparr>,
             \<lparr>tokType = CHARACTER, tokVal = '')''\<rparr>, \<lparr>tokType = OPERATOR, tokVal = '',''\<rparr>,
             \<lparr>tokType = URL, tokVal = ''b.png''\<rparr>] =
     parse_loop
       \<lparr>tokens = [\<lparr>tokType = IDENT, tokVal = ''no-repeat''\<rparr>,
                   \<lparr>tokType = FUNCTION, tokVal = ''linear-gradient(''\<rparr>,
                   \<lparr>tokType = COLOR, tokVal = ''red''\<rparr>,
                   \<lparr>tokType = CHARACTER, tokVal = '')''\<rparr>, \<lparr>tokType = OPERATOR, tokVal = '',''\<rparr>,
                   \<lparr>tokType = URL, tokVal = ''b.png''\<rparr>], tokenIndex = 4\<rparr>
       \<lparr>color = None, images = []\<rparr> (empty_layer\<lparr>repeat := Some ''no-repeat''\<rparr>)"
proof (intro conjI)
  let ?css = "[\<lparr>tokType = FUNCTION, tokVal = ''linear-gradient(''\<rparr>, \<lparr>tokType = COLOR, tokVal = ''red''\<rparr>,
               \<lparr>tokType = OPERATOR, tokVal = '',''\<rparr>, \<lparr>tokType = COLOR, tokVal = ''blue''\<rparr>,
               \<lparr>tokType = CHARACTER, tokVal = '')''\<rparr>]"
  let ?l = "new_gradient\<lparr>stops := [\<lparr>stopColor = Some (Color ''red''), offset = None\<rparr>,
                                   \<lparr>stopColor = Some (Color ''blue''), offset = None\<rparr>]\<rparr>"
  show ev: "parseCss ?css = Inr (Some \<lparr>color = None, images = [?l]\<rparr>)"
    by code_simp
  have ty: "type ?l = Some ''linear-gradient''"
    by code_simp
  have mem: "?l \<in> set (images \<lparr>color = None, images = [?l]\<rparr>)"
    by simp
  from gradient_layers_have_two_stops [THEN conjunct1, rule_format, OF ev mem ty]
  show "1 < length (stops ?l)" .
next
  let ?css = "[\<lparr>tokType = IDENT, tokVal = ''no-repeat''\<rparr>,
               \<lparr>tokType = FUNCTION, tokVal = ''linear-gradient(''\<rparr>,
               \<lparr>tokType = COLOR, tokVal = ''red''\<rparr>,
               \<lparr>tokType = CHARACTER, tokVal = '')''\<rparr>, \<lparr>tokType = OPERATOR, tokVal = '',''\<rparr>,
               \<lparr>tokType = URL, tokVal = ''b.png''\<rparr>]"
  let ?props = "\<lparr>color = None, images = []\<rparr>"
  let ?img = "empty_layer\<lparr>repeat := Some ''no-repeat''\<rparr>"
  let ?stop = "\<lparr>stopColor = Some (Color ''red''), offset = None\<rparr>"
  have st: "top_level_state ?css (Suc 0) = Some (\<lparr>tokens = ?css, tokenIndex = 1\<rparr>, ?props, ?img)"
    by code_simp
  have nx: "tokenizer_next \<lparr>tokens = ?css, tokenIndex = 1\<rparr> =
      (Some \<lparr>tokType = FUNCTION, tokVal = ''linear-gradient(''\<rparr>, \<lparr>tokens = ?css, tokenIndex = 2\<rparr>)"
    by code_simp
  have ty: "type ?img = None"
    by code_simp
  have fn: "tokType \<lparr>tokType = FUNCTION, tokVal = ''linear-gradient(''\<rparr> = FUNCTION"
    "tokVal \<lparr>tokType = FUNCTION, tokVal = ''linear-gradient(''\<rparr> = ''linear-gradient(''"
    by simp_all
  have gr: "gradient_reach (Suc 0) \<lparr>tokens = ?css, tokenIndex = 2\<rparr> new_gradient empty_stop
      ?img = Some (\<lparr>tokens = ?css, tokenIndex = 3\<rparr>, new_gradient, ?stop)"
    by code_simp
  have nx2: "tokenizer_next \<lparr>tokens = ?css, tokenIndex = 3\<rparr> =
      (Some \<lparr>tokType = CHARACTER, tokVal = '')''\<rparr>, \<lparr>tokens = ?css, tokenIndex = 4\<rparr>)"
    by code_simp
  have paren: "tokType \<lparr>tokType = CHARACTER, tokVal = '')''\<rparr> = CHARACTER"
    "tokVal \<lparr>tokType = CHARACTER, tokVal = '')''\<rparr> = '')''"
    by simp_all
  have few: "length (stops new_gradient) + (if stopColor ?stop = None then 0 else 1) \<le> 1"
    by (simp add: new_gradient_def empty_layer_def)
  from gradient_layers_have_two_stops
    [THEN conjunct2, THEN conjunct2, THEN conjunct1, rule_format,
     OF st nx ty fn gr nx2 paren few]
  show "parseCss ?css = parse_loop \<lparr>tokens = ?css, tokenIndex = 4\<rparr> ?props ?img" .
qed

text \<open>
  Against C4 as it is worded: \<open>no-repeat linear-gradient(red), url(b.png)\<close>. The single-stop
  gradient is dropped, but the layer it stood in is not discarded with it: the accumulator
  keeps \<open>no-repeat\<close>, the comma finds it without a type and does not reset it, and the
  \<open>b.png\<close> layer comes out with \<open>no-repeat\<close>.
\<close>

theorem short_gradient_keeps_enclosing_layer:
  "parseCss [\<lparr>tokType = IDENT, tokVal = ''no-repeat''\<rparr>,
             \<lparr>tokType = FUNCTION, tokVal = ''linear-gradient(''\<rparr>, \<lparr>tokType = COLOR, tokVal = ''red''\<rparr>,
             \<lparr>tokType = CHARACTER, tokVal = '')''\<rparr>, \<lparr>tokType = OPERATOR, tokVal = '',''\<rparr>,
             \<lparr>tokType = URL, tokVal = ''b.png''\<rparr>] =
     Inr (Some \<lparr>color = None,
                 images = [empty_layer\<lparr>repeat := Some ''no-repeat'', url := Some ''b.png'',
                                        type := Some ''image''\<rparr>]\<rparr>)"
  by code_simp




text \<open>
  C6. A colour token that the top-level loop fetches while the descriptor has no colour sets
  the colour of the descriptor and leaves the layer accumulator and the cursor as they are;
  that colour is the colour of whatever descriptor the parse returns, no other branch of the
  loop changes the colour of the descriptor, and a layer has no colour property at all. A
  colour token fetched when the colour is set makes the parse return \<open>null\<close>. The loop does
  not fetch every colour token outside a gradient: one that directly follows \<open>/\<close> is consumed
  as the operand of the size and ignored (its text not being \<open>auto\<close>). \<open>red url(a.png)\<close>
  yields the colour red and one image layer.
\<close>

theorem bare_color_sets_descriptor_color:
  "(\<forall>(token :: token) tz props img. tokType token = COLOR \<longrightarrow>
      parse_body token tz props img =
        (if color props = None
         then PContinue (props\<lparr>color := Some (Color (tokVal token))\<rparr>) img tz
         else PReturnNull)) \<and>
   (\<forall>css n tz props img (token :: token) tz1.
      top_level_state css n = Some (tz, props, img) \<longrightarrow>
      tokenizer_next tz = (Some token, tz1) \<longrightarrow>
      tokType token = COLOR \<longrightarrow> color props = None \<longrightarrow>
      top_level_state css (Suc n) =
        Some (tz1, props\<lparr>color := Some (Color (tokVal token))\<rparr>, img) \<and>
      (\<forall>p. parseCss css = Inr (Some p) \<longrightarrow> color p = Some (Color (tokVal token)))) \<and>
   (\<forall>(token :: token) tz props img props1 img1 tz1.
      parse_body token tz props img = PContinue props1 img1 tz1 \<longrightarrow>
      color props1 \<noteq> color props \<longrightarrow>
      tokType token = COLOR \<and> color props = None \<and> img1 = img) \<and>
   (\<forall>tz (token :: token) tz1 props img.
      tokenizer_next tz = (Some token, tz1) \<longrightarrow>
      tokType token = COLOR \<longrightarrow> tokVal token \<noteq> ''auto'' \<longrightarrow>
      background_size tz props img = PContinue props img tz1) \<and>
   parseCss [\<lparr>tokType = COLOR, tokVal = ''red''\<rparr>, \<lparr>tokType = URL, tokVal = ''a.png''\<rparr>] =
     Inr (Some \<lparr>color = Some (Color ''red''),
                 images = [empty_layer\<lparr>url := Some ''a.png'', type := Some ''image''\<rparr>]\<rparr>)"
proof (intro conjI allI impI)
  fix token :: token and tz props img
  assume "tokType token = COLOR"
  then show "parse_body token tz props img =
        (if color props = None
         then PContinue (props\<lparr>color := Some (Color (tokVal token))\<rparr>) img tz
         else PReturnNull)"
    by (simp add: parse_body_def color_not_position)
next
  fix css n tz props img and token :: token and tz1
  assume st: "top_level_state css n = Some (tz, props, img)"
    and nx: "tokenizer_next tz = (Some token, tz1)"
    and col: "tokType token = COLOR" "color props = None"
  from col have body: "parse_body token tz1 props img =
      PContinue (props\<lparr>color := Some (Color (tokVal token))\<rparr>) img tz1"
    by (simp add: parse_body_def color_not_position)
  from top_level_state_step [OF st nx body]
  show "top_level_state css (Suc n) =
      Some (tz1, props\<lparr>color := Some (Color (tokVal token))\<rparr>, img)" .
next
  fix css n tz props img and token :: token and tz1 p
  assume st: "top_level_state css n = Some (tz, props, img)"
    and nx: "tokenizer_next tz = (Some token, tz1)"
    and col: "tokType token = COLOR" "color props = None"
    and ret: "parseCss css = Inr (Some p)"
  from col have body: "parse_body token tz1 props img =
      PContinue (props\<lparr>color := Some (Color (tokVal token))\<rparr>) img tz1"
    by (simp add: parse_body_def color_not_position)
  from top_level_parse [OF st] parse_loop_step [OF nx, of props img] body ret
  have "parse_loop tz1 (props\<lparr>color := Some (Color (tokVal token))\<rparr>) img = Inr (Some p)"
    by simp
  from parse_loop_color [OF this] show "color p = Some (Color (tokVal token))"
    by simp
next
  fix token :: token and tz props img props1 img1 tz1
  assume "parse_body token tz props img = PContinue props1 img1 tz1"
    and "color props1 \<noteq> color props"
  with parse_body_color [of token tz props img props1 img1 tz1]
  show "tokType token = COLOR" and "color props = None" and "img1 = img"
    by simp_all
next
  fix tz and token :: token and tz1 props img
  assume "tokenizer_next tz = (Some token, tz1)" and "tokType token = COLOR"
    and "tokVal token \<noteq> ''auto''"
  then show "background_size tz props img = PContinue props img tz1"
    by (simp add: background_size_def sizeToken_def isLengthOrPercent_def)
next
  show "parseCss [\<lparr>tokType = COLOR, tokVal = ''red''\<rparr>, \<lparr>tokType = URL, tokVal = ''a.png''\<rparr>] =
     Inr (Some \<lparr>color = Some (Color ''red''),
                 images = [empty_layer\<lparr>url := Some ''a.png'', type := Some ''image''\<rparr>]\<rparr>)"
    by code_simp
qed

text \<open>
  The theorem at the token \<open>red\<close> with no colour set and at \<open>blue\<close> once red is set; at
  \<open>red url(a.png), url(b.png)\<close>, where red is fetched first and is the colour of the
  descriptor returned for the two layers; and at the \<open>red\<close> behind the \<open>/\<close> of
  \<open>url(a.png) / red\<close>.
\<close>

theorem bare_color_sets_descriptor_color_witness:
  "parse_body \<lparr>tokType = COLOR, tokVal = ''red''\<rparr> \<lparr>tokens = [], tokenIndex = 1\<rparr>
     \<lparr>color = None, images = []\<rparr> empty_layer =
     PContinue \<lparr>color = Some (Color ''red''), images = []\<rparr> empty_layer
       \<lparr>tokens = [], tokenIndex = 1\<rparr> \<and>
   parse_body \<lparr>tokType = COLOR, tokVal = ''blue''\<rparr> \<lparr>tokens = [], tokenIndex = 1\<rparr>
     \<lparr>color = Some (Color ''red''), images = []\<rparr> empty_layer = PReturnNull \<and>
   parseCss [\<lparr>tokType = COLOR, tokVal = ''red''\<rparr>, \<lparr>tokType = URL, tokVal = ''a.png''\<rparr>,
             \<lparr>tokType = OPERATOR, tokVal = '',''\<rparr>, \<lparr>tokType = URL, tokVal = ''b.png''\<rparr>] =
     Inr (Some \<lparr>color = Some (Color ''red''),
                 images = [empty_layer\<lparr>url := Some ''a.png'', type := Some ''image''\<rparr>,
                           empty_layer\<lparr>url := Some ''b.png'', type := Some ''image''\<rparr>]\<rparr>) \<and>
   color \<lparr>color = Some (Color ''red''),
          images = [empty_layer\<lparr>url := Some ''a.png'', type := Some ''image''\<rparr>,
                    empty_layer\<lparr>url := Some ''b.png'', type := Some ''image''\<rparr>]\<rparr> =
     Some (Color ''red'') \<and>
   top_level_state [\<lparr>tokType = COLOR, tokVal = ''red''\<rparr>, \<lparr>tokType = URL, tokVal = ''a.png''\<rparr>,
                    \<lparr>tokType = OPERATOR, tokVal = '',''\<rparr>, \<lparr>tokType = URL, tokVal = ''b.png''\<rparr>]
     (Suc 0) =
     Some (\<lparr>tokens = [\<lparr>tokType = COLOR, tokVal = ''red''\<rparr>, \<lparr>tokType = URL, tokVal = ''a.png''\<rparr>,
                       \<lparr>tokType = OPERATOR, tokVal = '',''\<rparr>, \<lparr>tokType = URL, tokVal = ''b.png''\<rparr>],
             tokenIndex = 1\<rparr>,
           \<lparr>color = Some (Color ''red''), images = []\<rparr>, empty_layer) \<and>
   background_size
     \<lparr>tokens = [\<lparr>tokType = URL, tokVal = ''a.png''\<rparr>, \<lparr>tokType = OPERATOR, tokVal = ''/''\<rparr>,
                 \<lparr>tokType = COLOR, tokVal = ''red''\<rparr>], tokenIndex = 2\<rparr>
     \<lparr>color = None, images = []\<rparr> (empty_layer\<lparr>url := Some ''a.png'', type := Some ''image''\<rparr>) =
     PContinue \<lparr>color = None, images = []\<rparr>
       (empty_layer\<lparr>url := Some ''a.png'', type := Some ''image''\<rparr>)
       \<lparr>tokens = [\<lparr>tokType = URL, tokVal = ''a.png''\<rparr>, \<lparr>tokType = OPERATOR, tokVal = ''/''\<rparr>,
                   \<lparr>tokType = COLOR, tokVal = ''red''\<rparr>], tokenIndex = 3\<rparr>"
proof (intro conjI)
  from bare_color_sets_descriptor_color
  show "parse_body \<lparr>tokType = COLOR, tokVal = ''red''\<rparr> \<lparr>tokens = [], tokenIndex = 1\<rparr>
     \<lparr>color = None, images = []\<rparr> empty_layer =
     PContinue \<lparr>color = Some (Color ''red''), images = []\<rparr> empty_layer
       \<lparr>tokens = [], tokenIndex = 1\<rparr>"
    by simp
next
  from bare_color_sets_descriptor_color
  show "parse_body \<lparr>tokType = COLOR, tokVal = ''blue''\<rparr> \<lparr>tokens = [], tokenIndex = 1\<rparr>
     \<lparr>color = Some (Color ''red''), images = []\<rparr> empty_layer = PReturnNull"
    by simp
next
  let ?css = "[\<lparr>tokType = COLOR, tokVal = ''red''\<rparr>, \<lparr>tokType = URL, tokVal = ''a.png''\<rparr>,
               \<lparr>tokType = OPERATOR, tokVal = '',''\<rparr>, \<lparr>tokType = URL, tokVal = ''b.png''\<rparr>]"
  let ?p = "\<lparr>color = Some (Color ''red''),
             images = [empty_layer\<lparr>url := Some ''a.png'', type := Some ''image''\<rparr>,
                       empty_layer\<lparr>url := Some ''b.png'', type := Some ''image''\<rparr>]\<rparr>"
  show ev: "parseCss ?css = Inr (Some ?p)"
    by code_simp
  have st: "top_level_state ?css 0 =
      Some (\<lparr>tokens = ?css, tokenIndex = 0\<rparr>, \<lparr>color = None, images = []\<rparr>, empty_layer)"
    by code_simp
  have nx: "tokenizer_next \<lparr>tokens = ?css, tokenIndex = 0\<rparr> =
      (Some \<lparr>tokType = COLOR, tokVal = ''red''\<rparr>, \<lparr>tokens = ?css, tokenIndex = 1\<rparr>)"
    by code_simp
  have col: "tokType \<lparr>tokType = COLOR, tokVal = ''red''\<rparr> = COLOR"
    "color \<lparr>color = None, images = []\<rparr> = None"
    by simp_all
  from bare_color_sets_descriptor_color
    [THEN conjunct2, THEN conjunct1, rule_format, OF st nx col, THEN conjunct2, rule_format, OF ev]
  show "color ?p = Some (Color ''red'')"
    by simp
  from bare_color_sets_descriptor_color
    [THEN conjunct2, THEN conjunct1, rule_format, OF st nx col, THEN conjunct1]
  show "top_level_state ?css (Suc 0) =
      Some (\<lparr>tokens = ?css, tokenIndex = 1\<rparr>, \<lparr>color = Some (Color ''red''), images = []\<rparr>,
            empty_layer)"
    by simp
next
  let ?css = "[\<lparr>tokType = URL, tokVal = ''a.png''\<rparr>, \<lparr>tokType = OPERATOR, tokVal = ''/''\<rparr>,
               \<lparr>tokType = COLOR, tokVal = ''red''\<rparr>]"
  have nx: "tokenizer_next \<lparr>tokens = ?css, tokenIndex = 2\<rparr> =
      (Some \<lparr>tokType = COLOR, tokVal = ''red''\<rparr>, \<lparr>tokens = ?css, tokenIndex = 3\<rparr>)"
    by code_simp
  from bare_color_sets_descriptor_color
    [THEN conjunct2, THEN conjunct2, THEN conjunct2, THEN conjunct1, rule_format, OF nx]
  show "background_size \<lparr>tokens = ?css, tokenIndex = 2\<rparr>
     \<lparr>color = None, images = []\<rparr> (empty_layer\<lparr>url := Some ''a.png'', type := Some ''image''\<rparr>) =
     PContinue \<lparr>color = None, images = []\<rparr>
       (empty_layer\<lparr>url := Some ''a.png'', type := Some ''image''\<rparr>)
       \<lparr>tokens = ?css, tokenIndex = 3\<rparr>"
    by simp
qed

text \<open>
  Against C6 as it is worded: \<open>url(a.png) / red\<close>. The colour stands outside any gradient and
  no colour is set, yet it is taken as the operand of \<open>/\<close>, assigned to nothing, and the
  descriptor comes back without a colour.
\<close>

theorem color_after_slash_is_not_assigned:
  "parseCss [\<lparr>tokType = URL, tokVal = ''a.png''\<rparr>, \<lparr>tokType = OPERATOR, tokVal = ''/''\<rparr>,
             \<lparr>tokType = COLOR, tokVal = ''red''\<rparr>] =
     Inr (Some \<lparr>color = None,
                 images = [empty_layer\<lparr>url := Some ''a.png'', type := Some ''image''\<rparr>]\<rparr>)"
  by code_simp

text \<open>
  C7. The size after \<open>/\<close> is read as the claim says while tokens follow, but
  \<open>url(a.png) / 10px\<close> ends after the width: the height lookahead yields the sentinel and
  \<open>sizeToken\<close> reads \<open>token.type\<close> of it (line 73), so \<open>parseCss\<close> raises \<open>TypeError\<close>
  instead of returning the size with the height equal to the width.
\<close>

theorem square_size_throws_at_end_of_stream:
  "parseCss [\<lparr>tokType = URL, tokVal = ''a.png''\<rparr>, \<lparr>tokType = OPERATOR, tokVal = ''/''\<rparr>,
             \<lparr>tokType = LENGTH, tokVal = ''10px''\<rparr>] = Inl TypeError"
  by code_simp

text \<open>
  While a token follows the width, lines 198 to 203 do what is intended: that token is the
  height when \<open>sizeToken\<close> takes it, and is pushed back with the height set to the width
  when not.
\<close>

lemma background_size_with_following_token:
  assumes "tokenizer_next tz = (Some token, tz1)"
    and "\<not> (tokType token = IDENT \<and> js_in (tokVal token) sizeIdents)"
    and "sizeToken token = Some w"
    and "tokenizer_next tz1 = (Some token2, tz2)"
  shows "background_size tz props img =
           (case sizeToken token2 of
              Some h \<Rightarrow> PContinue props (img\<lparr>size_field := Some (SizeWH w (Some h))\<rparr>) tz2
            | None \<Rightarrow> PContinue props (img\<lparr>size_field := Some (SizeWH w (Some w))\<rparr>) tz1)"
proof -
  from tokenizer_next_Some [OF assms(1)] tokenizer_next_Some [OF assms(4)]
  have "tokenizer_prev tz2 = (Some token, tz1)"
    by (auto simp: tokenizer_prev_def)
  with assms show ?thesis
    by (auto simp: background_size_def split: option.splits)
qed

text \<open>
  With one more token behind the width, the same value parses and the height is the width.
\<close>

lemma square_size_before_another_token:
  "parseCss [\<lparr>tokType = URL, tokVal = ''a.png''\<rparr>, \<lparr>tokType = OPERATOR, tokVal = ''/''\<rparr>,
             \<lparr>tokType = LENGTH, tokVal = ''10px''\<rparr>, \<lparr>tokType = IDENT, tokVal = ''no-repeat''\<rparr>] =
     Inr (Some \<lparr>color = None,
                 images = [empty_layer\<lparr>url := Some ''a.png'', type := Some ''image'',
                   size_field := Some (SizeWH (Len (Length ''10px'')) (Some (Len (Length ''10px'')))),
                   repeat := Some ''no-repeat''\<rparr>]\<rparr>)"
  by code_simp

text \<open>
  C8. In the gradient sub-parser, once an angle or a start position is recorded, a colour
  token starts a stop only when the token just before it is a comma. Otherwise the pass
  breaks without flushing the gradient; the layer the gradient stands in is not discarded:
  the accumulator is returned as it was before the gradient, the colour token is pushed
  back, and the top-level loop resumes at that colour token with the descriptor unchanged.
  The code tests the previous token for being an operator; in every state the sub-parser
  reaches, an operator just consumed is a comma.
\<close>

theorem color_after_angle_needs_comma:
  assumes "tokenizer_next tz0 = (Some function_token, tz1)"
    and "tokType function_token = FUNCTION"
    and "gradient_reach n tz1 new_gradient empty_stop img = Some (tz, gradient, stop)"
    and "tokenizer_next tz = (Some token, tz')"
    and "tokType token = COLOR"
    and "angle gradient \<noteq> None \<or> gradientStart gradient \<noteq> None"
  shows "1 \<le> tokenIndex tz \<and> tokenIndex tz \<le> length (tokens tz) \<and>
         gradient_body token tz' gradient stop img =
           (if is_comma (tokens tz ! (tokenIndex tz - 1))
            then color_stop (tokVal token) tz' gradient
            else GBreak img tz) \<and>
         (\<not> is_comma (tokens tz ! (tokenIndex tz - 1)) \<longrightarrow>
            gradient_loop tz1 new_gradient empty_stop img = Inr (img, tz)) \<and>
         (\<forall>css m props.
            \<not> is_comma (tokens tz ! (tokenIndex tz - 1)) \<longrightarrow>
            top_level_state css m = Some (tz0, props, img) \<longrightarrow>
            type img = None \<longrightarrow>
            tokVal function_token = ''linear-gradient('' \<longrightarrow>
            parseCss css = parse_loop tz props img)"
proof -
  from gradient_reach_last_token [OF assms(3) after_function_token [OF assms(1,2)]]
  have ok: "last_token_ok tz" .
  from assms(4) have lt: "tokenIndex tz < length (tokens tz)"
    and tz': "tz' = tz\<lparr>tokenIndex := tokenIndex tz + 1\<rparr>"
    using tokenizer_next_Some by blast+
  define previous where "previous = tokens tz ! (tokenIndex tz - 1)"
  from ok lt have pv: "tokenizer_prev tz' = (Some previous, tz)"
    by (auto simp: tz' tokenizer_prev_def last_token_ok_def previous_def)
  have again: "snd (tokenizer_next tz) = tz'"
    using assms(4) by simp
  from ok have op: "tokType previous = OPERATOR \<longleftrightarrow> is_comma previous"
    by (auto simp: last_token_ok_def is_comma_def previous_def)
  from assms(5,6) have body: "gradient_body token tz' gradient stop img =
           (if is_comma previous then color_stop (tokVal token) tz' gradient else GBreak img tz)"
    by (auto simp: gradient_body_def pv again op)
  have loop: "gradient_loop tz1 new_gradient empty_stop img = Inr (img, tz)"
    if "\<not> is_comma previous"
    using gradient_reach_loop [OF assms(3)] gradient_loop_step [OF assms(4), of gradient stop img]
      body that by simp
  have top: "parseCss css = parse_loop tz props img"
    if "\<not> is_comma previous" and "top_level_state css m = Some (tz0, props, img)"
      and "type img = None" and "tokVal function_token = ''linear-gradient(''"
    for css m props
  proof -
    from body that(1) have "gradient_body token tz' gradient stop img = GBreak img tz"
      by simp
    from gradient_break_resumes [OF that(2) assms(1) that(3) assms(2) that(4) assms(3,4) this]
    show ?thesis .
  qed
  from ok body loop top show ?thesis
    by (simp add: last_token_ok_def previous_def)
qed

text \<open>
  The theorem at \<open>linear-gradient(45deg red\<close>, where the colour follows the angle directly,
  the sub-parser gives up and the parse resumes at the colour; and at
  \<open>linear-gradient(45deg, red, blue)\<close>, where the comma lets the colour start a stop.
\<close>

theorem color_after_angle_needs_comma_witness:
  "gradient_loop
     \<lparr>tokens = [\<lparr>tokType = FUNCTION, tokVal = ''linear-gradient(''\<rparr>,
                 \<lparr>tokType = ANGLE, tokVal = ''45deg''\<rparr>, \<lparr>tokType = COLOR, tokVal = ''red''\<rparr>],
       tokenIndex = 1\<rparr> new_gradient empty_stop empty_layer =
     Inr (empty_layer,
          \<lparr>tokens = [\<lparr>tokType = FUNCTION, tokVal = ''linear-gradient(''\<rparr>,
                      \<lparr>tokType = ANGLE, tokVal = ''45deg''\<rparr>, \<lparr>tokType = COLOR, tokVal = ''red''\<rparr>],
            tokenIndex = 2\<rparr>) \<and>
   parseCss [\<lparr>tokType = FUNCTION, tokVal = ''linear-gradient(''\<rparr>,
             \<lparr>tokType = ANGLE, tokVal = ''45deg''\<rparr>, \<lparr>tokType = COLOR, tokVal = ''red''\<rparr>] =
     parse_loop
       \<lparr>tokens = [\<lparr>tokType = FUNCTION, tokVal = ''linear-gradient(''\<rparr>,
                   \<lparr>tokType = ANGLE, tokVal = ''45deg''\<rparr>, \<lparr>tokType = COLOR, tokVal = ''red''\<rparr>],
         tokenIndex = 2\<rparr> \<lparr>color = None, images = []\<rparr> empty_layer \<and>
   gradient_body \<lparr>tokType = COLOR, tokVal = ''red''\<rparr>
     \<lparr>tokens = [\<lparr>tokType = FUNCTION, tokVal = ''linear-gradient(''\<rparr>,
                 \<lparr>tokType = ANGLE, tokVal = ''45deg''\<rparr>, \<lparr>tokType = OPERATOR, tokVal = '',''\<rparr>,
                 \<lparr>tokType = COLOR, tokVal = ''red''\<rparr>, \<lparr>tokType = OPERATOR, tokVal = '',''\<rparr>,
                 \<lparr>tokType = COLOR, tokVal = ''blue''\<rparr>, \<lparr>tokType = CHARACTER, tokVal = '')''\<rparr>],
       tokenIndex = 4\<rparr>
     (new_gradient\<lparr>angle := Some (Angle ''45deg'')\<rparr>) empty_stop empty_layer =
     GContinue (new_gradient\<lparr>angle := Some (Angle ''45deg'')\<rparr>)
       \<lparr>stopColor = Some (Color ''red''), offset = None\<rparr>
       \<lparr>tokens = [\<lparr>tokType = FUNCTION, tokVal = ''linear-gradient(''\<rparr>,
                   \<lparr>tokType = ANGLE, tokVal = ''45deg''\<rparr>, \<lparr>tokType = OPERATOR, tokVal = '',''\<rparr>,
                   \<lparr>tokType = COLOR, tokVal = ''red''\<rparr>, \<lparr>tokType = OPERATOR, tokVal = '',''\<rparr>,
                   \<lparr>tokType = COLOR, tokVal = ''blue''\<rparr>, \<lparr>tokType = CHARACTER, tokVal = '')''\<rparr>],
         tokenIndex = 4\<rparr>"
proof (intro conjI)
  let ?css = "[\<lparr>tokType = FUNCTION, tokVal = ''linear-gradient(''\<rparr>,
               \<lparr>tokType = ANGLE, tokVal = ''45deg''\<rparr>, \<lparr>tokType = COLOR, tokVal = ''red''\<rparr>]"
  let ?g = "new_gradient\<lparr>angle := Some (Angle ''45deg'')\<rparr>"
  have nx: "tokenizer_next \<lparr>tokens = ?css, tokenIndex = 0\<rparr> =
      (Some \<lparr>tokType = FUNCTION, tokVal = ''linear-gradient(''\<rparr>, \<lparr>tokens = ?css, tokenIndex = 1\<rparr>)"
    by code_simp
  have gr: "gradient_reach (Suc 0) \<lparr>tokens = ?css, tokenIndex = 1\<rparr> new_gradient empty_stop
      empty_layer = Some (\<lparr>tokens = ?css, tokenIndex = 2\<rparr>, ?g, empty_stop)"
    by code_simp
  have nx2: "tokenizer_next \<lparr>tokens = ?css, tokenIndex = 2\<rparr> =
      (Some \<lparr>tokType = COLOR, tokVal = ''red''\<rparr>, \<lparr>tokens = ?css, tokenIndex = 3\<rparr>)"
    by code_simp
  have an: "angle ?g \<noteq> None \<or> gradientStart ?g \<noteq> None"
    by simp
  have no: "\<not> is_comma (tokens \<lparr>tokens = ?css, tokenIndex = 2\<rparr> !
      (tokenIndex \<lparr>tokens = ?css, tokenIndex = 2\<rparr> - 1))"
    by (simp add: is_comma_def)
  have st: "top_level_state ?css 0 =
      Some (\<lparr>tokens = ?css, tokenIndex = 0\<rparr>, \<lparr>color = None, images = []\<rparr>, empty_layer)"
    by code_simp
  have ty: "type empty_layer = None"
    by code_simp
  note inst = color_after_angle_needs_comma [OF nx _ gr nx2 _ an]
  from inst no
  show "gradient_loop \<lparr>tokens = ?css, tokenIndex = 1\<rparr> new_gradient empty_stop empty_layer =
      Inr (empty_layer, \<lparr>tokens = ?css, tokenIndex = 2\<rparr>)"
    by simp
  from inst no st ty
  show "parseCss ?css =
      parse_loop \<lparr>tokens = ?css, tokenIndex = 2\<rparr> \<lparr>color = None, images = []\<rparr> empty_layer"
    by simp
next
  let ?css = "[\<lparr>tokType = FUNCTION, tokVal = ''linear-gradient(''\<rparr>,
               \<lparr>tokType = ANGLE, tokVal = ''45deg''\<rparr>, \<lparr>tokType = OPERATOR, tokVal = '',''\<rparr>,
               \<lparr>tokType = COLOR, tokVal = ''red''\<rparr>, \<lparr>tokType = OPERATOR, tokVal = '',''\<rparr>,
               \<lparr>tokType = COLOR, tokVal = ''blue''\<rparr>, \<lparr>tokType = CHARACTER, tokVal = '')''\<rparr>]"
  let ?g = "new_gradient\<lparr>angle := Some (Angle ''45deg'')\<rparr>"
  have nx: "tokenizer_next \<lparr>tokens = ?css, tokenIndex = 0\<rparr> =
      (Some \<lparr>tokType = FUNCTION, tokVal = ''linear-gradient(''\<rparr>, \<lparr>tokens = ?css, tokenIndex = 1\<rparr>)"
    by code_simp
  have gr: "gradient_reach (Suc (Suc 0)) \<lparr>tokens = ?css, tokenIndex = 1\<rparr> new_gradient empty_stop
      empty_layer = Some (\<lparr>tokens = ?css, tokenIndex = 3\<rparr>, ?g, empty_stop)"
    by code_simp
  have nx2: "tokenizer_next \<lparr>tokens = ?css, tokenIndex = 3\<rparr> =
      (Some \<lparr>tokType = COLOR, tokVal = ''red''\<rparr>, \<lparr>tokens = ?css, tokenIndex = 4\<rparr>)"
    by code_simp
  have an: "angle ?g \<noteq> None \<or> gradientStart ?g \<noteq> None"
    by simp
  have yes: "is_comma (tokens \<lparr>tokens = ?css, tokenIndex = 3\<rparr> !
      (tokenIndex \<lparr>tokens = ?css, tokenIndex = 3\<rparr> - 1))"
    by (simp add: is_comma_def)
  have cs: "color_stop ''red'' \<lparr>tokens = ?css, tokenIndex = 4\<rparr> ?g =
      GContinue ?g \<lparr>stopColor = Some (Color ''red''), offset = None\<rparr> \<lparr>tokens = ?css, tokenIndex = 4\<rparr>"
    by code_simp
  from color_after_angle_needs_comma [OF nx _ gr nx2 _ an] yes cs
  show "gradient_body \<lparr>tokType = COLOR, tokVal = ''red''\<rparr> \<lparr>tokens = ?css, tokenIndex = 4\<rparr>
      ?g empty_stop empty_layer =
      GContinue ?g \<lparr>stopColor = Some (Color ''red''), offset = None\<rparr> \<lparr>tokens = ?css, tokenIndex = 4\<rparr>"
    by simp
qed

text \<open>
  Against C8 as it is worded: \<open>no-repeat linear-gradient(45deg red url(a.png)\<close>. The colour
  follows the angle without a comma and the sub-parser gives up, but the enclosing layer is
  not discarded: red, pushed back, becomes the colour of the descriptor, and the accumulator
  that held \<open>no-repeat\<close> goes on to take \<open>a.png\<close> and is returned as the one layer.
\<close>

theorem color_after_angle_keeps_enclosing_layer:
  "parseCss [\<lparr>tokType = IDENT, tokVal = ''no-repeat''\<rparr>,
             \<lparr>tokType = FUNCTION, tokVal = ''linear-gradient(''\<rparr>,
             \<lparr>tokType = ANGLE, tokVal = ''45deg''\<rparr>, \<lparr>tokType = COLOR, tokVal = ''red''\<rparr>,
             \<lparr>tokType = URL, tokVal = ''a.png''\<rparr>] =
     Inr (Some \<lparr>color = Some (Color ''red''),
                 images = [empty_layer\<lparr>repeat := Some ''no-repeat'', url := Some ''a.png'',
                                        type := Some ''image''\<rparr>]\<rparr>)"
  by code_simp

text \<open>
  C9. When the top-level loop fetches a colour token and the descriptor already has a
  colour, \<open>parseCss\<close> returns \<open>null\<close>. This does not cover every second colour outside a
  gradient: the loop fetches the token at its head only, and a colour consumed as the
  operand of \<open>/\<close> never gets there.
\<close>

theorem second_color_returns_null:
  assumes "top_level_state css n = Some (tz, props, img)"
    and "tokenizer_next tz = (Some token, tz1)"
    and "tokType token = COLOR"
    and "color props \<noteq> None"
  shows "parseCss css = Inr None"
proof -
  from assms(3,4) have "parse_body token tz1 props img = PReturnNull"
    by (intro parse_body_unrecognized) (simp_all add: color_not_position)
  with assms(1,2) show ?thesis
    by (rule top_level_null)
qed

text \<open>The theorem at \<open>red blue\<close>: after one pass the colour is red, and blue is fetched.\<close>

theorem second_color_returns_null_witness:
  "top_level_state [\<lparr>tokType = COLOR, tokVal = ''red''\<rparr>, \<lparr>tokType = COLOR, tokVal = ''blue''\<rparr>] (Suc 0) =
     Some (\<lparr>tokens = [\<lparr>tokType = COLOR, tokVal = ''red''\<rparr>, \<lparr>tokType = COLOR, tokVal = ''blue''\<rparr>],
             tokenIndex = 1\<rparr>,
           \<lparr>color = Some (Color ''red''), images = []\<rparr>, empty_layer) \<and>
   parseCss [\<lparr>tokType = COLOR, tokVal = ''red''\<rparr>, \<lparr>tokType = COLOR, tokVal = ''blue''\<rparr>] = Inr None"
proof -
  let ?css = "[\<lparr>tokType = COLOR, tokVal = ''red''\<rparr>, \<lparr>tokType = COLOR, tokVal = ''blue''\<rparr>]"
  have st: "top_level_state ?css (Suc 0) =
      Some (\<lparr>tokens = ?css, tokenIndex = 1\<rparr>, \<lparr>color = Some (Color ''red''), images = []\<rparr>,
            empty_layer)"
    by code_simp
  have nx: "tokenizer_next \<lparr>tokens = ?css, tokenIndex = 1\<rparr> =
      (Some \<lparr>tokType = COLOR, tokVal = ''blue''\<rparr>, \<lparr>tokens = ?css, tokenIndex = 2\<rparr>)"
    by code_simp
  from second_color_returns_null [OF st nx] st show ?thesis
    by simp
qed

text \<open>
  Against C9 as it is worded: \<open>red / blue\<close>. The second colour stands outside any gradient
  and the colour is set, yet blue is taken as the operand of \<open>/\<close> and the parse returns the
  descriptor with the colour red.
\<close>

theorem second_color_after_slash_is_swallowed:
  "parseCss [\<lparr>tokType = COLOR, tokVal = ''red''\<rparr>, \<lparr>tokType = OPERATOR, tokVal = ''/''\<rparr>,
             \<lparr>tokType = COLOR, tokVal = ''blue''\<rparr>] =
     Inr (Some \<lparr>color = Some (Color ''red''), images = []\<rparr>)"
  by code_simp

text \<open>
  C10. When the top-level loop fetches a URL token or the \<open>linear-gradient(\<close> function token
  while the layer accumulator has a type (no comma has reset it since it got one),
  \<open>parseCss\<close> returns \<open>null\<close>. This does not cover every such token behind a layer's first
  one: the loop fetches the token at its head only, and a token consumed as the operand of
  \<open>/\<close> never gets there.
\<close>

theorem second_identity_returns_null:
  assumes "top_level_state css n = Some (tz, props, img)"
    and "tokenizer_next tz = (Some token, tz1)"
    and "type img \<noteq> None"
    and "tokType token = URL \<or> (tokType token = FUNCTION \<and> tokVal token = ''linear-gradient('')"
  shows "parseCss css = Inr None"
proof -
  from assms(4) have "\<not> isBgPosToken token"
    by (auto simp: isBgPosToken_def isLengthOrPercent_def)
  with assms(3,4) have "parse_body token tz1 props img = PReturnNull"
    by (intro parse_body_unrecognized) auto
  with assms(1,2) show ?thesis
    by (rule top_level_null)
qed

text \<open>The theorem at \<open>url(a.png) url(b.png)\<close> and at \<open>url(a.png) linear-gradient(\<close>.\<close>

theorem second_identity_returns_null_witness:
  "parseCss [\<lparr>tokType = URL, tokVal = ''a.png''\<rparr>, \<lparr>tokType = URL, tokVal = ''b.png''\<rparr>] = Inr None \<and>
   parseCss [\<lparr>tokType = URL, tokVal = ''a.png''\<rparr>,
             \<lparr>tokType = FUNCTION, tokVal = ''linear-gradient(''\<rparr>] = Inr None"
proof
  let ?css = "[\<lparr>tokType = URL, tokVal = ''a.png''\<rparr>, \<lparr>tokType = URL, tokVal = ''b.png''\<rparr>]"
  let ?img = "empty_layer\<lparr>url := Some ''a.png'', type := Some ''image''\<rparr>"
  have st: "top_level_state ?css (Suc 0) =
      Some (\<lparr>tokens = ?css, tokenIndex = 1\<rparr>, \<lparr>color = None, images = []\<rparr>, ?img)"
    by code_simp
  have nx: "tokenizer_next \<lparr>tokens = ?css, tokenIndex = 1\<rparr> =
      (Some \<lparr>tokType = URL, tokVal = ''b.png''\<rparr>, \<lparr>tokens = ?css, tokenIndex = 2\<rparr>)"
    by code_simp
  from second_identity_returns_null [OF st nx] show "parseCss ?css = Inr None"
    by simp
next
  let ?css = "[\<lparr>tokType = URL, tokVal = ''a.png''\<rparr>,
               \<lparr>tokType = FUNCTION, tokVal = ''linear-gradient(''\<rparr>]"
  let ?img = "empty_layer\<lparr>url := Some ''a.png'', type := Some ''image''\<rparr>"
  have st: "top_level_state ?css (Suc 0) =
      Some (\<lparr>tokens = ?css, tokenIndex = 1\<rparr>, \<lparr>color = None, images = []\<rparr>, ?img)"
    by code_simp
  have nx: "tokenizer_next \<lparr>tokens = ?css, tokenIndex = 1\<rparr> =
      (Some \<lparr>tokType = FUNCTION, tokVal = ''linear-gradient(''\<rparr>, \<lparr>tokens = ?css, tokenIndex = 2\<rparr>)"
    by code_simp
  from second_identity_returns_null [OF st nx] show "parseCss ?css = Inr None"
    by simp
qed

text \<open>
  Against C10 as it is worded: \<open>url(a.png) / url(b.png)\<close> and \<open>url(a.png) / linear-gradient(\<close>.
  The second URL and the function token appear while the layer is an image and no comma has
  come, yet each is taken as the operand of \<open>/\<close> and the parse returns the one layer.
\<close>

theorem second_identity_after_slash_is_swallowed:
  "parseCss [\<lparr>tokType = URL, tokVal = ''a.png''\<rparr>, \<lparr>tokType = OPERATOR, tokVal = ''/''\<rparr>,
             \<lparr>tokType = URL, tokVal = ''b.png''\<rparr>] =
     Inr (Some \<lparr>color = None,
                 images = [empty_layer\<lparr>url := Some ''a.png'', type := Some ''image''\<rparr>]\<rparr>) \<and>
   parseCss [\<lparr>tokType = URL, tokVal = ''a.png''\<rparr>, \<lparr>tokType = OPERATOR, tokVal = ''/''\<rparr>,
             \<lparr>tokType = FUNCTION, tokVal = ''linear-gradient(''\<rparr>] =
     Inr (Some \<lparr>color = None,
                 images = [empty_layer\<lparr>url := Some ''a.png'', type := Some ''image''\<rparr>]\<rparr>)"
  by code_simp

end
